theory Spec2Isabelle
  imports Main "HOL-Library.Multiset"
begin

section \<open>In-Surely: retrieval with a semantic cache, and cross-encoder reranking\<close>

text \<open>
  The notebook \<^verbatim>\<open>In_Surely.ipynb\<close> defines two functions that this development embeds:
  \<^verbatim>\<open>retrieve_documents(query, n_results=5, cache_threshold=0.2)\<close> and
  \<^verbatim>\<open>rerank_results(query, results_df)\<close>. Both are short and consist mostly of calls
  into libraries (ChromaDB collections, pandas frames, the cross-encoder, Python's
  \<^verbatim>\<open>str\<close> and \<^verbatim>\<open>ast.literal_eval\<close>). The functions themselves are translated line
  by line; each library call is either a parameter or a small model of the library's
  documented behaviour, and is marked as such.
\<close>

subsection \<open>Errors\<close>

text \<open>
  Every exception the two functions can let escape is a value: Python's own
  \<^verbatim>\<open>IndexError\<close>, \<^verbatim>\<open>KeyError\<close> and \<^verbatim>\<open>ValueError\<close>, and an exception raised inside a
  library (the embedding function, the vector index, the cross-encoder), carried with its
  message.
\<close>

datatype error = IndexError | KeyError string | ValueError string | LibraryError string

subsection \<open>Data frames\<close>

text \<open>
  A pandas frame is a list of rows. \<^verbatim>\<open>pd.DataFrame({...})\<close> gives the rows the index
  labels \<open>0, 1, \<dots>\<close>; \<^verbatim>\<open>sort_values\<close> moves a row together with its label. Distances
  and scores are floats over the one type \<open>'d\<close> of numbers; the metadata of a row is of
  type \<open>'m\<close>.

  A score is whatever float the cross-encoder returns: a number, or not-a-number. The
  column \<^verbatim>\<open>Reranked_Scores\<close> does not exist until \<^verbatim>\<open>rerank_results\<close> assigns it:
  \<open>None\<close> is the cell of a column that is not there.
\<close>

datatype 'd score = NaN | Score 'd


record ('m, 'd) row =
  index :: nat
  Documents :: string
  Metadata :: 'm
  Distances :: 'd
  Reranked_Scores :: "'d score option"

type_synonym ('m, 'd) dataframe = "('m, 'd) row list"

fun rows_from :: "nat \<Rightarrow> string list \<Rightarrow> 'm list \<Rightarrow> 'd list \<Rightarrow> ('m, 'd) dataframe" where
  "rows_from i (doc # docs) (m # ms) (d # ds) =
     \<lparr>index = i, Documents = doc, Metadata = m, Distances = d, Reranked_Scores = None\<rparr>
       # rows_from (Suc i) docs ms ds"
| "rows_from i _ _ _ = []"

text \<open>
  \<^verbatim>\<open>pd.DataFrame({"Documents": \<dots>, "Metadata": \<dots>, "Distances": \<dots>})\<close>: pandas raises
  \<^verbatim>\<open>ValueError\<close> when the three lists differ in length.
\<close>

definition DataFrame ::
  "string list \<Rightarrow> 'm list \<Rightarrow> 'd list \<Rightarrow> error + ('m, 'd) dataframe" where
  "DataFrame docs metas dists =
     (if length docs = length metas \<and> length metas = length dists
      then Inr (rows_from 0 docs metas dists)
      else Inl (ValueError ''All arrays must be of the same length''))"

text \<open>
  \<^verbatim>\<open>results_df['Reranked_Scores'] = scores\<close>: the array is assigned by position;
  pandas raises \<^verbatim>\<open>ValueError\<close> when its length is not the frame's.
\<close>

definition set_Reranked_Scores ::
  "('m, 'd) dataframe \<Rightarrow> 'd score list \<Rightarrow> error + ('m, 'd) dataframe" where
  "set_Reranked_Scores df scores =
     (if length scores = length df
      then Inr (map2 (\<lambda>r s. r\<lparr>Reranked_Scores := Some s\<rparr>) df scores)
      else Inl (ValueError ''Length of values does not match length of index''))"

subsection \<open>\<^verbatim>\<open>sort_values(by='Reranked_Scores', ascending=False)\<close>\<close>

text \<open>
  \<^verbatim>\<open>sort_values\<close> reads the column (\<^verbatim>\<open>KeyError\<close> when the frame has none), computes
  an indexer with pandas' \<^verbatim>\<open>nargsort\<close> and takes the rows in that order. The call gives
  no \<^verbatim>\<open>kind=\<close> and no \<^verbatim>\<open>na_position=\<close>, so \<^verbatim>\<open>nargsort\<close> runs with pandas' defaults
  \<^verbatim>\<open>kind='quicksort'\<close> and \<^verbatim>\<open>na_position='last'\<close>:
  \<^verbatim>\<open>
  def nargsort(items, kind="quicksort", ascending=True, na_position="last", ...):
      mask = np.asarray(isna(items))
      idx = np.arange(len(items))
      non_nans = items[~mask]
      non_nan_idx = idx[~mask]
      nan_idx = np.nonzero(mask)[0]
      if not ascending:
          non_nans = non_nans[::-1]
          non_nan_idx = non_nan_idx[::-1]
      indexer = non_nan_idx[non_nans.argsort(kind=kind)]
      if not ascending:
          indexer = indexer[::-1]
      if na_position == "last":
          indexer = np.concatenate([indexer, nan_idx])
      ...
      return ensure_platform_int(indexer)
  \<close>
  \<^verbatim>\<open>non_nans.argsort(kind='quicksort')\<close> is numpy's sort. Which of its kernels runs
  depends on the size of the array and on the processor, and pandas documents this kind as
  not stable. It is the parameter \<open>argsort\<close>, from a list of numbers to a list of
  positions, and what numpy promises of it is \<open>sorts_ascending\<close>: the positions are a
  rearrangement of \<open>0, \<dots>, n - 1\<close>, and the numbers read in that order ascend.
\<close>

fun cells :: "('m, 'd) dataframe \<Rightarrow> error + 'd score list" where
  "cells [] = Inr []"
| "cells (r # rs) =
     (case Reranked_Scores r of
        None \<Rightarrow> Inl (KeyError ''Reranked_Scores'')
      | Some c \<Rightarrow> (case cells rs of Inl e \<Rightarrow> Inl e | Inr cs \<Rightarrow> Inr (c # cs)))"

text \<open>The positions from \<open>i\<close> on that hold a number, each with its number, and those that hold not-a-number.\<close>

fun non_nans_from :: "nat \<Rightarrow> 'd score list \<Rightarrow> (nat \<times> 'd) list" where
  "non_nans_from i [] = []"
| "non_nans_from i (NaN # items) = non_nans_from (Suc i) items"
| "non_nans_from i (Score x # items) = (i, x) # non_nans_from (Suc i) items"

fun nans_from :: "nat \<Rightarrow> 'd score list \<Rightarrow> nat list" where
  "nans_from i [] = []"
| "nans_from i (NaN # items) = i # nans_from (Suc i) items"
| "nans_from i (Score x # items) = nans_from (Suc i) items"

text \<open>
  \<^verbatim>\<open>xs[indexer]\<close> with an array of positions, and \<^verbatim>\<open>df.take(indexer)\<close>: numpy raises
  \<^verbatim>\<open>IndexError\<close> for a position that is out of bounds.
\<close>

definition getitems :: "'a list \<Rightarrow> nat list \<Rightarrow> error + 'a list" where
  "getitems xs indexer =
     (if list_all (\<lambda>i. i < length xs) indexer then Inr (map (\<lambda>i. xs ! i) indexer)
      else Inl IndexError)"

definition nargsort ::
  "('d list \<Rightarrow> nat list) \<Rightarrow> bool \<Rightarrow> 'd score list \<Rightarrow> error + nat list" where
  "nargsort argsort ascending items =
     (let found = non_nans_from 0 items;
          nan_idx = nans_from 0 items;
          found = (if ascending then found else rev found);
          non_nans = map snd found;
          non_nan_idx = map fst found
      in case getitems non_nan_idx (argsort non_nans) of
           Inl e \<Rightarrow> Inl e
         | Inr indexer \<Rightarrow> Inr ((if ascending then indexer else rev indexer) @ nan_idx))"

definition sort_values ::
  "('d list \<Rightarrow> nat list) \<Rightarrow> bool \<Rightarrow> ('m, 'd) dataframe \<Rightarrow> error + ('m, 'd) dataframe" where
  "sort_values argsort ascending df =
     (case cells df of
        Inl e \<Rightarrow> Inl e
      | Inr items \<Rightarrow>
          (case nargsort argsort ascending items of
             Inl e \<Rightarrow> Inl e
           | Inr indexer \<Rightarrow> getitems df indexer))"

definition permutes :: "('d list \<Rightarrow> nat list) \<Rightarrow> bool" where
  "permutes argsort \<longleftrightarrow> (\<forall>ks. mset (argsort ks) = mset [0..<length ks])"

definition sorts_ascending :: "('d::linorder list \<Rightarrow> nat list) \<Rightarrow> bool" where
  "sorts_ascending argsort \<longleftrightarrow>
     permutes argsort \<and> (\<forall>ks. sorted (map (\<lambda>i. ks ! i) (argsort ks)))"


text \<open>
  Two sorts that both keep the promise. The first is a stable sort of the positions.
  The second sorts the positions taken from the last to the first, so that among equal
  numbers the later position comes first.
\<close>

definition insertion_argsort :: "'d::linorder list \<Rightarrow> nat list" where
  "insertion_argsort ks = sort_key (\<lambda>i. ks ! i) [0..<length ks]"

definition backward_argsort :: "'d::linorder list \<Rightarrow> nat list" where
  "backward_argsort ks = sort_key (\<lambda>i. ks ! i) (rev [0..<length ks])"

subsection \<open>The cross-encoder\<close>

text \<open>
  \<^verbatim>\<open>cross_encoder.predict(inputs)\<close> scores a batch of \<open>(query, document)\<close> pairs and
  returns one score per pair, in order. The scoring model is a parameter
  \<open>scorer\<close> that may raise; the batch call raises as soon as one pair does.
\<close>

fun predict ::
  "(string \<Rightarrow> string \<Rightarrow> error + 's) \<Rightarrow> (string \<times> string) list \<Rightarrow> error + 's list" where
  "predict scorer [] = Inr []"
| "predict scorer ((q, doc) # inputs) =
     (case scorer q doc of
        Inl e \<Rightarrow> Inl e
      | Inr s \<Rightarrow> (case predict scorer inputs of Inl e \<Rightarrow> Inl e | Inr ss \<Rightarrow> Inr (s # ss)))"

subsection \<open>\<^verbatim>\<open>rerank_results\<close>\<close>

text \<open>
  \<^verbatim>\<open>
  def rerank_results(query, results_df):
      inputs = [[query, doc] for doc in results_df['Documents']]
      scores = cross_encoder.predict(inputs)
      results_df['Reranked_Scores'] = scores
      print("Reranking complete. Top scores:")
      print(scores[:3])
      return results_df.sort_values(by='Reranked_Scores', ascending=False)
  \<close>
  The function assigns a column of the frame it was given, so the model returns two
  things: what the call returns (or the exception), and the caller's frame as it is after
  the call.
\<close>

definition rerank_results ::
  "('d list \<Rightarrow> nat list) \<Rightarrow> (string \<Rightarrow> string \<Rightarrow> error + 'd score) \<Rightarrow> string \<Rightarrow>
     ('m, 'd) dataframe \<Rightarrow> (error + ('m, 'd) dataframe) \<times> ('m, 'd) dataframe" where
  "rerank_results argsort scorer query results_df =
     (let inputs = map (\<lambda>doc. (query, doc)) (map Documents results_df) in
      case predict scorer inputs of
        Inl e \<Rightarrow> (Inl e, results_df)
      | Inr scores \<Rightarrow>
          (case set_Reranked_Scores results_df scores of
             Inl e \<Rightarrow> (Inl e, results_df)
           | Inr scored_df \<Rightarrow> (sort_values argsort False scored_df, scored_df)))"

text \<open>
  What a candidate is apart from its score: the row label and the three columns that
  \<^verbatim>\<open>retrieve_documents\<close> fills.
\<close>

definition candidate :: "('m, 'd) row \<Rightarrow> nat \<times> string \<times> 'm \<times> 'd" where
  "candidate r = (index r, Documents r, Metadata r, Distances r)"

subsection \<open>Python literals: \<^verbatim>\<open>str\<close> of a list and \<^verbatim>\<open>ast.literal_eval\<close>\<close>

text \<open>
  On a miss the three result lists are stored in the cache as text, \<^verbatim>\<open>str(list)\<close>, and on
  a hit they are read back with \<^verbatim>\<open>ast.literal_eval\<close>. \<^verbatim>\<open>str\<close> of a list is
  \<^verbatim>\<open>'[' + ', '.join(repr(x) for x in xs) + ']'\<close>.

  A Python string is modelled as a list of 8-bit characters read as the code points
  \<open>0 \<dots> 255\<close>. \<^verbatim>\<open>repr\<close> of a string picks the quote (a double quote only when the string
  has a single quote and no double quote), puts a backslash before the quote character and
  the backslash, writes tab, line feed and carriage return as \<^verbatim>\<open>\t\<close>, \<^verbatim>\<open>\n\<close>,
  \<^verbatim>\<open>\r\<close>, and every other non-printable character as \<^verbatim>\<open>\xhh\<close>.
\<close>

abbreviation squote :: char where "squote \<equiv> CHR 0x27"
abbreviation dquote :: char where "dquote \<equiv> CHR 0x22"
abbreviation backslash :: char where "backslash \<equiv> CHR 0x5C"

definition printable :: "char \<Rightarrow> bool" where
  "printable c \<longleftrightarrow>
     (let n = (of_char c :: nat) in (32 \<le> n \<and> n < 127) \<or> (161 \<le> n \<and> n \<noteq> 173))"

definition hex_digit :: "nat \<Rightarrow> char" where
  "hex_digit n = ''0123456789abcdef'' ! n"

definition hex_value :: "char \<Rightarrow> nat option" where
  "hex_value c =
     (let n = (of_char c :: nat) in
      if 48 \<le> n \<and> n \<le> 57 then Some (n - 48)
      else if 97 \<le> n \<and> n \<le> 102 then Some (n - 87)
      else if 65 \<le> n \<and> n \<le> 70 then Some (n - 55)
      else None)"

definition repr_char :: "char \<Rightarrow> char \<Rightarrow> string" where
  "repr_char q c =
     (if c = q \<or> c = backslash then [backslash, c]
      else if c = CHR 0x09 then [backslash, CHR ''t'']
      else if c = CHR 0x0A then [backslash, CHR ''n'']
      else if c = CHR 0x0D then [backslash, CHR ''r'']
      else if \<not> printable c
        then [backslash, CHR ''x'', hex_digit (of_char c div 16), hex_digit (of_char c mod 16)]
      else [c])"

definition repr_quote :: "string \<Rightarrow> char" where
  "repr_quote s = (if squote \<in> set s \<and> dquote \<notin> set s then dquote else squote)"

definition repr_str :: "string \<Rightarrow> string" where
  "repr_str s = (let q = repr_quote s in q # concat (map (repr_char q) s) @ [q])"

fun join_items :: "string list \<Rightarrow> string" where
  "join_items [] = []"
| "join_items [x] = x"
| "join_items (x # y # ys) = x @ '', '' @ join_items (y # ys)"

definition py_str :: "('a \<Rightarrow> string) \<Rightarrow> 'a list \<Rightarrow> string" where
  "py_str repr xs = ''['' @ join_items (map repr xs) @ '']''"

text \<open>
  \<^verbatim>\<open>ast.literal_eval\<close> is modelled on the text that \<^verbatim>\<open>str\<close> of a list produces, which
  is the only text this program ever stores in the cache: a bracketed list of items
  separated by a comma and a space. Each reader takes the text and returns the value read
  and the text left over. Python's own parser accepts more (other spacing, other escapes,
  other literals); on such text the model answers \<^verbatim>\<open>ValueError\<close>.
\<close>

definition strip_prefix :: "string \<Rightarrow> string \<Rightarrow> string option" where
  "strip_prefix p s = (if take (length p) s = p then Some (drop (length p) s) else None)"

definition unescape :: "char \<Rightarrow> char option" where
  "unescape e =
     (if e = backslash \<or> e = squote \<or> e = dquote then Some e
      else if e = CHR ''t'' then Some (CHR 0x09)
      else if e = CHR ''n'' then Some (CHR 0x0A)
      else if e = CHR ''r'' then Some (CHR 0x0D)
      else None)"

definition cons_result :: "'a \<Rightarrow> ('a list \<times> string) option \<Rightarrow> ('a list \<times> string) option" where
  "cons_result x r = (case r of None \<Rightarrow> None | Some (xs, rest) \<Rightarrow> Some (x # xs, rest))"

fun string_body :: "char \<Rightarrow> string \<Rightarrow> (string \<times> string) option" where
  "string_body q [] = None"
| "string_body q (c # s) =
     (if c = q then Some ([], s)
      else if c = backslash then
        (case s of
           [] \<Rightarrow> None
         | e # s' \<Rightarrow>
             if e = CHR ''x'' then
               (case s' of
                  h # l # s'' \<Rightarrow>
                    (case (hex_value h, hex_value l) of
                       (Some a, Some b) \<Rightarrow> cons_result (char_of (16 * a + b)) (string_body q s'')
                     | _ \<Rightarrow> None)
                | _ \<Rightarrow> None)
             else
               (case unescape e of
                  None \<Rightarrow> None
                | Some c' \<Rightarrow> cons_result c' (string_body q s')))
      else cons_result c (string_body q s))"

definition string_literal :: "string \<Rightarrow> (string \<times> string) option" where
  "string_literal s =
     (case s of
        [] \<Rightarrow> None
      | q # s' \<Rightarrow> if q = squote \<or> q = dquote then string_body q s' else None)"

text \<open>
  The items of a list display. The test on the lengths makes the recursion total
  whatever the item reader does; a reader that consumes text never fails it.
\<close>

function list_items :: "(string \<Rightarrow> ('a \<times> string) option) \<Rightarrow> string \<Rightarrow> ('a list \<times> string) option" where
  "list_items item s =
     (case item s of
        None \<Rightarrow> None
      | Some (x, rest) \<Rightarrow>
          (case strip_prefix '']'' rest of
             Some rest' \<Rightarrow> Some ([x], rest')
           | None \<Rightarrow>
               (case strip_prefix '', '' rest of
                  None \<Rightarrow> None
                | Some rest' \<Rightarrow>
                    if length rest' < length s then cons_result x (list_items item rest')
                    else None)))"
  by pat_completeness auto
termination
  by (relation "measure (\<lambda>(item, s). length s)") auto

definition list_display :: "(string \<Rightarrow> ('a \<times> string) option) \<Rightarrow> string \<Rightarrow> ('a list \<times> string) option" where
  "list_display item s =
     (case strip_prefix ''[]'' s of
        Some rest \<Rightarrow> Some ([], rest)
      | None \<Rightarrow>
          (case strip_prefix ''['' s of
             None \<Rightarrow> None
           | Some s' \<Rightarrow> list_items item s'))"

definition literal_eval :: "(string \<Rightarrow> ('a \<times> string) option) \<Rightarrow> string \<Rightarrow> error + 'a list" where
  "literal_eval item s =
     (case list_display item s of
        Some (xs, []) \<Rightarrow> Inr xs
      | _ \<Rightarrow> Inl (ValueError ''malformed node or string''))"

subsection \<open>Metadata of a page\<close>

text \<open>
  The notebook attaches to every page the dictionary
  \<^verbatim>\<open>{"Policy_Name": x['Document_Name'], "Page_No": x['Page No.']}\<close>, both values strings.
  Its \<^verbatim>\<open>repr\<close> is \<^verbatim>\<open>{'Policy_Name': \<dots>, 'Page_No': \<dots>}\<close> with the \<^verbatim>\<open>repr\<close> of the two
  strings.
\<close>

record metadata =
  Policy_Name :: string
  Page_No :: string

definition repr_metadata :: "metadata \<Rightarrow> string" where
  "repr_metadata m =
     ''{'' @ repr_str ''Policy_Name'' @ '': '' @ repr_str (Policy_Name m) @ '', '' @
       repr_str ''Page_No'' @ '': '' @ repr_str (Page_No m) @ ''}''"

definition metadata_literal :: "string \<Rightarrow> (metadata \<times> string) option" where
  "metadata_literal s =
     (case strip_prefix (''{'' @ repr_str ''Policy_Name'' @ '': '') s of
        None \<Rightarrow> None
      | Some s1 \<Rightarrow>
          (case string_literal s1 of
             None \<Rightarrow> None
           | Some (name, s2) \<Rightarrow>
               (case strip_prefix ('', '' @ repr_str ''Page_No'' @ '': '') s2 of
                  None \<Rightarrow> None
                | Some s3 \<Rightarrow>
                    (case string_literal s3 of
                       None \<Rightarrow> None
                     | Some (page, s4) \<Rightarrow>
                         (case strip_prefix ''}'' s4 of
                            None \<Rightarrow> None
                          | Some rest \<Rightarrow> Some (\<lparr>Policy_Name = name, Page_No = page\<rparr>, rest))))))"

subsection \<open>Distances\<close>

text \<open>
  Distances and the threshold are Python floats. The functions only compare them
  (\<^verbatim>\<open><=\<close>) and pass them through \<^verbatim>\<open>str\<close> and \<^verbatim>\<open>ast.literal_eval\<close>, so the type of
  distances is any linear order \<open>'d\<close>, given together with the text \<^verbatim>\<open>repr\<close> writes for a
  value and the reader that \<^verbatim>\<open>ast.literal_eval\<close> applies to it. \<open>float_roundtrip\<close> is
  Python's guarantee for finite floats: reading what \<^verbatim>\<open>repr\<close> wrote, up to the comma or
  bracket that ends the item, gives the same float back; and the text of a float is not
  empty and does not begin with a closing bracket.
\<close>

definition ends_item :: "string \<Rightarrow> bool" where
  "ends_item rest \<longleftrightarrow> (case rest of [] \<Rightarrow> False | c # _ \<Rightarrow> c = CHR '','' \<or> c = CHR '']'')"

definition starts_item :: "string \<Rightarrow> bool" where
  "starts_item s \<longleftrightarrow> (case s of [] \<Rightarrow> False | c # _ \<Rightarrow> c \<noteq> CHR '']'')"

definition float_roundtrip :: "('d \<Rightarrow> string) \<Rightarrow> (string \<Rightarrow> ('d \<times> string) option) \<Rightarrow> bool" where
  "float_roundtrip frepr fliteral \<longleftrightarrow>
     (\<forall>x rest. ends_item rest \<longrightarrow> fliteral (frepr x @ rest) = Some (x, rest)) \<and>
     (\<forall>x. starts_item (frepr x))"

text \<open>
  One instance, used to run the functions on examples: the floats with an integral value,
  as integers. Python writes them in decimal followed by \<^verbatim>\<open>.0\<close>, as in \<^verbatim>\<open>3.0\<close> and
  \<^verbatim>\<open>-1.0\<close>.
\<close>

definition digit_char :: "nat \<Rightarrow> char" where
  "digit_char n = char_of (48 + n)"

definition is_digit :: "char \<Rightarrow> bool" where
  "is_digit c \<longleftrightarrow> 48 \<le> (of_char c :: nat) \<and> (of_char c :: nat) \<le> 57"

fun show_nat :: "nat \<Rightarrow> string" where
  "show_nat n = (if n < 10 then [digit_char n] else show_nat (n div 10) @ [digit_char (n mod 10)])"

declare show_nat.simps [simp del]

definition read_nat :: "string \<Rightarrow> nat" where
  "read_nat ds = foldl (\<lambda>a c. 10 * a + (of_char c - 48)) 0 ds"

definition integral_repr :: "int \<Rightarrow> string" where
  "integral_repr i =
     (if i < 0 then CHR ''-'' # show_nat (nat (- i)) else show_nat (nat i)) @ ''.0''"

definition unsigned_literal :: "string \<Rightarrow> (nat \<times> string) option" where
  "unsigned_literal s =
     (let ds = takeWhile is_digit s in
      if ds = [] then None
      else (case strip_prefix ''.0'' (dropWhile is_digit s) of
              None \<Rightarrow> None
            | Some rest \<Rightarrow> Some (read_nat ds, rest)))"

definition integral_literal :: "string \<Rightarrow> (int \<times> string) option" where
  "integral_literal s =
     (case strip_prefix ''-'' s of
        Some s' \<Rightarrow> map_option (\<lambda>(n, rest). (- int n, rest)) (unsigned_literal s')
      | None \<Rightarrow> map_option (\<lambda>(n, rest). (int n, rest)) (unsigned_literal s))"

subsection \<open>What a collection query returns\<close>

text \<open>
  \<^verbatim>\<open>collection.query(query_texts=[query], n_results=n)\<close> returns a dictionary of lists
  with one entry per query text. The notebook always passes one query text and reads entry
  \<^verbatim>\<open>[0]\<close>; the record below is that entry: parallel lists, nearest first.
\<close>

record ('m, 'd) query_result =
  ids :: "string list"
  documents :: "string list"
  metadatas :: "'m list"
  distances :: "'d list"

text \<open>
  The metadata of a cache entry is the dictionary
  \<^verbatim>\<open>{"documents": str(\<dots>), "distances": str(\<dots>), "metadatas": str(\<dots>)}\<close>; reading a key
  that is missing raises \<^verbatim>\<open>KeyError\<close>.
\<close>

type_synonym cache_data = "(string \<times> string) list"

definition getitem :: "cache_data \<Rightarrow> string \<Rightarrow> error + string" where
  "getitem d k = (case map_of d k of None \<Rightarrow> Inl (KeyError k) | Some v \<Rightarrow> Inr v)"

subsection \<open>The library calls of \<^verbatim>\<open>retrieve_documents\<close>\<close>

text \<open>
  \<^verbatim>\<open>retrieve_documents\<close> reaches the outside through three calls, each of which may
  raise: the query of the cache collection, the query of the main collection, and
  \<^verbatim>\<open>cache_collection.add\<close>. The state of the cache collection, \<open>'c\<close>, is passed in and
  returned; the main collection is not written by the function and is part of
  \<open>collection_query\<close>. The two functions for floats are those of the previous subsection.
\<close>

record ('c, 'd) library =
  cache_query :: "'c \<Rightarrow> string \<Rightarrow> int \<Rightarrow> error + (cache_data, 'd) query_result"
  cache_add :: "'c \<Rightarrow> string \<Rightarrow> string \<Rightarrow> cache_data \<Rightarrow> error + 'c"
  collection_query :: "string \<Rightarrow> int \<Rightarrow> error + (metadata, 'd) query_result"
  float_repr :: "'d \<Rightarrow> string"
  float_literal :: "string \<Rightarrow> ('d \<times> string) option"

subsection \<open>\<^verbatim>\<open>retrieve_documents\<close>\<close>

text \<open>
  \<^verbatim>\<open>
  def retrieve_documents(query, n_results=5, cache_threshold=0.2):
      cache_results = cache_collection.query(query_texts=[query], n_results=1)
      if cache_results['distances'][0] and cache_results['distances'][0][0] <= cache_threshold:
          print("Cache hit for query:", query)
          cache_data = cache_results['metadatas'][0][0]
          print("Cache retrieved data:", cache_data)

          documents = ast.literal_eval(cache_data['documents'])
          distances = ast.literal_eval(cache_data['distances'])
          metadatas = ast.literal_eval(cache_data['metadatas'])

          return pd.DataFrame({
              "Documents": documents,
              "Metadata": metadatas,
              "Distances": distances
          })

      print("Cache miss. Retrieving from main collection.")
      results = collection.query(query_texts=[query], n_results=n_results)
      cache_collection.add(
          documents=[query],
          ids=[query],
          metadatas=[{
              "documents": str(results['documents'][0]),
              "distances": str(results['distances'][0]),
              "metadatas": str(results['metadatas'][0])
          }]
      )
      print("Query added to cache.")
      print("Retrieved data from collection:", results)
      return pd.DataFrame({
          "Documents": results['documents'][0],
          "Metadata": results['metadatas'][0],
          "Distances": results['distances'][0]
      })
  \<close>
  The function returns a frame only; which of the two messages \<^verbatim>\<open>Cache hit for query:\<close>
  and \<^verbatim>\<open>Cache miss.\<close> it printed is returned with the frame as the \<open>route\<close>. The model
  returns the outcome of the call and the cache collection as it is after the call. There
  is no \<^verbatim>\<open>try\<close> in the function: an exception of a library call ends the call. A call
  of \<^verbatim>\<open>add\<close> that raises is taken to leave the collection as it was.
\<close>

datatype route = Cache_hit | Cache_miss

text \<open>The condition of the \<^verbatim>\<open>if\<close>: the list of distances is not empty and its head is within the threshold.\<close>

definition cache_hit :: "('m, 'd::linorder) query_result \<Rightarrow> 'd \<Rightarrow> bool" where
  "cache_hit cache_results cache_threshold \<longleftrightarrow>
     distances cache_results \<noteq> [] \<and> hd (distances cache_results) \<le> cache_threshold"

text \<open>The body of the \<^verbatim>\<open>if\<close>: the frame read back from the nearest cache entry.\<close>

definition cached_frame ::
  "('c, 'd) library \<Rightarrow> (cache_data, 'd) query_result \<Rightarrow> error + (metadata, 'd) dataframe" where
  "cached_frame L cache_results =
     (case metadatas cache_results of
        [] \<Rightarrow> Inl IndexError
      | cache_data # _ \<Rightarrow>
          (case getitem cache_data ''documents'' of Inl e \<Rightarrow> Inl e | Inr doc_text \<Rightarrow>
           case literal_eval string_literal doc_text of Inl e \<Rightarrow> Inl e | Inr docs \<Rightarrow>
           case getitem cache_data ''distances'' of Inl e \<Rightarrow> Inl e | Inr dist_text \<Rightarrow>
           case literal_eval (float_literal L) dist_text of Inl e \<Rightarrow> Inl e | Inr dists \<Rightarrow>
           case getitem cache_data ''metadatas'' of Inl e \<Rightarrow> Inl e | Inr meta_text \<Rightarrow>
           case literal_eval metadata_literal meta_text of Inl e \<Rightarrow> Inl e | Inr metas \<Rightarrow>
             DataFrame docs metas dists))"

text \<open>The code after the \<^verbatim>\<open>if\<close>: query the main collection, store the result in the cache, return it.\<close>

definition payload :: "('c, 'd) library \<Rightarrow> (metadata, 'd) query_result \<Rightarrow> cache_data" where
  "payload L results =
     [(''documents'', py_str repr_str (documents results)),
      (''distances'', py_str (float_repr L) (distances results)),
      (''metadatas'', py_str repr_metadata (metadatas results))]"

definition fresh_retrieval ::
  "('c, 'd) library \<Rightarrow> 'c \<Rightarrow> string \<Rightarrow> int \<Rightarrow> (error + route \<times> (metadata, 'd) dataframe) \<times> 'c" where
  "fresh_retrieval L cache query n_results =
     (case collection_query L query n_results of
        Inl e \<Rightarrow> (Inl e, cache)
      | Inr results \<Rightarrow>
          (case cache_add L cache query query (payload L results) of
             Inl e \<Rightarrow> (Inl e, cache)
           | Inr cache' \<Rightarrow>
               (case DataFrame (documents results) (metadatas results) (distances results) of
                  Inl e \<Rightarrow> (Inl e, cache')
                | Inr df \<Rightarrow> (Inr (Cache_miss, df), cache'))))"

definition retrieve_documents ::
  "('c, 'd::linorder) library \<Rightarrow> 'c \<Rightarrow> string \<Rightarrow> int \<Rightarrow> 'd \<Rightarrow>
     (error + route \<times> (metadata, 'd) dataframe) \<times> 'c" where
  "retrieve_documents L cache query n_results cache_threshold =
     (case cache_query L cache query 1 of
        Inl e \<Rightarrow> (Inl e, cache)
      | Inr cache_results \<Rightarrow>
          if cache_hit cache_results cache_threshold then
            (case cached_frame L cache_results of
               Inl e \<Rightarrow> (Inl e, cache)
             | Inr df \<Rightarrow> (Inr (Cache_hit, df), cache))
          else fresh_retrieval L cache query n_results)"

subsection \<open>ChromaDB collections\<close>

text \<open>
  The two collections are ChromaDB collections with the same embedding function. The
  model keeps what the functions above can observe of one: its records in insertion order,
  each with the embedding of its document.
  \<^item> \<^verbatim>\<open>query\<close> embeds the query text and returns the \<open>n_results\<close> records nearest to it,
    nearest first, or all records when there are fewer; it raises when \<open>n_results\<close> is not
    positive. An empty collection gives empty lists. (The index is approximate in
    ChromaDB; the model is exact, and among records at the same distance the older one
    comes first.)
  \<^item> \<^verbatim>\<open>add\<close> embeds the document and appends the record. A record whose id is already in
    the collection is skipped without an exception: overwriting is what \<^verbatim>\<open>upsert\<close> does,
    and the notebook calls \<^verbatim>\<open>add\<close>.
  The embedding function \<open>embedding_function\<close> and the distance \<open>dist\<close> of the index are parameters.
\<close>

record ('v, 'm) item =
  item_id :: string
  item_document :: string
  item_embedding :: 'v
  item_metadata :: 'm

type_synonym ('v, 'm) collection = "('v, 'm) item list"

definition nearest ::
  "('v \<Rightarrow> 'v \<Rightarrow> 'd::linorder) \<Rightarrow> 'v \<Rightarrow> nat \<Rightarrow> ('v, 'm) collection \<Rightarrow> ('v, 'm) collection" where
  "nearest dist v n col = take n (sort_key (\<lambda>i. dist v (item_embedding i)) col)"

definition chroma_query ::
  "(string \<Rightarrow> 'v) \<Rightarrow> ('v \<Rightarrow> 'v \<Rightarrow> 'd::linorder) \<Rightarrow> ('v, 'm) collection \<Rightarrow> string \<Rightarrow> int \<Rightarrow>
     error + ('m, 'd) query_result" where
  "chroma_query embedding_function dist col query_text n_results =
     (if n_results \<le> 0
      then Inl (LibraryError ''Number of requested results cannot be negative, or zero'')
      else
        (let v = embedding_function query_text; found = nearest dist v (nat n_results) col in
         Inr \<lparr>ids = map item_id found,
              documents = map item_document found,
              metadatas = map item_metadata found,
              distances = map (\<lambda>i. dist v (item_embedding i)) found\<rparr>))"

definition chroma_add ::
  "(string \<Rightarrow> 'v) \<Rightarrow> ('v, 'm) collection \<Rightarrow> string \<Rightarrow> string \<Rightarrow> 'm \<Rightarrow> error + ('v, 'm) collection" where
  "chroma_add embedding_function col document i meta =
     (if i \<in> set (map item_id col) then Inr col
      else Inr (col @ [\<lparr>item_id = i, item_document = document,
                        item_embedding = embedding_function document, item_metadata = meta\<rparr>]))"

text \<open>
  The notebook's two collections, \<^verbatim>\<open>collection\<close> (the pages, \<open>store\<close>) and
  \<^verbatim>\<open>cache_collection\<close>, as the library of \<^verbatim>\<open>retrieve_documents\<close>.
\<close>

definition chroma ::
  "(string \<Rightarrow> 'v) \<Rightarrow> ('v \<Rightarrow> 'v \<Rightarrow> 'd::linorder) \<Rightarrow> ('d \<Rightarrow> string) \<Rightarrow>
     (string \<Rightarrow> ('d \<times> string) option) \<Rightarrow> ('v, metadata) collection \<Rightarrow>
     (('v, cache_data) collection, 'd) library" where
  "chroma embedding_function dist frepr fliteral store =
     \<lparr>cache_query = chroma_query embedding_function dist,
      cache_add = chroma_add embedding_function,
      collection_query = chroma_query embedding_function dist store,
      float_repr = frepr,
      float_literal = fliteral\<rparr>"

subsection \<open>A small instance\<close>

text \<open>
  An instance on which the functions can be run: the embedding of a text is its length,
  the distance of two embeddings is the absolute difference, and the store holds two
  pages.
\<close>

definition example_embedding :: "string \<Rightarrow> int" where
  "example_embedding text = int (length text)"

definition example_distance :: "int \<Rightarrow> int \<Rightarrow> int" where
  "example_distance a b = \<bar>a - b\<bar>"

definition example_page :: "string \<Rightarrow> string \<Rightarrow> string \<Rightarrow> (int, metadata) item" where
  "example_page i text page_no =
     \<lparr>item_id = i, item_document = text, item_embedding = example_embedding text,
      item_metadata = \<lparr>Policy_Name = ''Policy_A.pdf'', Page_No = page_no\<rparr>\<rparr>"

definition example_store :: "(int, metadata) collection" where
  "example_store =
     [example_page ''0'' ''cover'' ''Page 1'', example_page ''1'' ''waiting period'' ''Page 2'']"

definition example_library :: "((int, cache_data) collection, int) library" where
  "example_library =
     chroma example_embedding example_distance integral_repr integral_literal example_store"

text \<open>
  Caches reached on this instance: after a first query \<^verbatim>\<open>'coverage'\<close>, after a second
  query \<^verbatim>\<open>'waiting times'\<close> on top of it, after a first query with a negative threshold,
  and after a first query that asks for five results.
\<close>

definition cache_after_coverage :: "(int, cache_data) collection" where
  "cache_after_coverage = snd (retrieve_documents example_library [] ''coverage'' 1 4)"

definition cache_after_waiting :: "(int, cache_data) collection" where
  "cache_after_waiting =
     snd (retrieve_documents example_library cache_after_coverage ''waiting times'' 1 4)"

definition cache_after_refresh :: "(int, cache_data) collection" where
  "cache_after_refresh = snd (retrieve_documents example_library [] ''coverage'' 1 (- 1))"

definition cache_after_five :: "(int, cache_data) collection" where
  "cache_after_five = snd (retrieve_documents example_library [] ''coverage'' 5 4)"

text \<open>The same library with an embedding function that raises when the cache is queried.\<close>

definition failing_library :: "((int, cache_data) collection, int) library" where
  "failing_library =
     example_library\<lparr>cache_query := \<lambda>cache query n. Inl (LibraryError ''embedding failed'')\<rparr>"

text \<open>
  A frame of two candidates, one of three, and four scorers: one that gives every candidate the same
  score, one that prefers the second candidate, one whose score for the first candidate
  is not a number, and one that raises on the second.
\<close>

definition example_row ::
  "nat \<Rightarrow> string \<Rightarrow> string \<Rightarrow> int \<Rightarrow> int score option \<Rightarrow> (metadata, int) row" where
  "example_row i doc page_no d s =
     \<lparr>index = i, Documents = doc,
      Metadata = \<lparr>Policy_Name = ''Policy_A.pdf'', Page_No = page_no\<rparr>,
      Distances = d, Reranked_Scores = s\<rparr>"

definition example_frame :: "(metadata, int) dataframe" where
  "example_frame = [example_row 0 ''d1'' ''Page 1'' 1 None, example_row 1 ''d2'' ''Page 2'' 2 None]"


definition constant_scorer :: "string \<Rightarrow> string \<Rightarrow> error + int score" where
  "constant_scorer query doc = Inr (Score 0)"

definition example_scorer :: "string \<Rightarrow> string \<Rightarrow> error + int score" where
  "example_scorer query doc = (if doc = ''d2'' then Inr (Score 9) else Inr (Score 3))"


definition raising_scorer :: "string \<Rightarrow> string \<Rightarrow> error + int score" where
  "raising_scorer query doc =
     (if doc = ''d2'' then Inl (LibraryError ''scoring failed'') else Inr (Score 9))"

section \<open>Properties of \<^verbatim>\<open>rerank_results\<close>\<close>

subsection \<open>The batch of scores\<close>

lemma predict_Inr:
  "predict scorer (map (\<lambda>doc. (q, doc)) docs) = Inr ss \<Longrightarrow>
     list_all2 (\<lambda>doc s. scorer q doc = Inr s) docs ss"
  by (induction docs arbitrary: ss) (auto split: sum.splits)

lemma predict_Inl:
  "doc \<in> set docs \<Longrightarrow> scorer q doc = Inl e \<Longrightarrow>
     \<exists>e'. predict scorer (map (\<lambda>doc. (q, doc)) docs) = Inl e'"
  by (induction docs) (auto split: sum.splits)

lemma predict_total:
  "(\<And>doc. doc \<in> set docs \<Longrightarrow> \<exists>s. scorer q doc = Inr s) \<Longrightarrow>
     \<exists>ss. predict scorer (map (\<lambda>doc. (q, doc)) docs) = Inr ss"
proof (induction docs)
  case Nil
  then show ?case by simp
next
  case (Cons d docs)
  then obtain s where s: "scorer q d = Inr s" by auto
  from Cons obtain ss where "predict scorer (map (\<lambda>doc. (q, doc)) docs) = Inr ss" by auto
  with s show ?case by simp
qed

lemma scored_rows:
  assumes "list_all2 (\<lambda>doc s. scorer q doc = Inr s) (map Documents df) ss"
  shows "list_all2 (\<lambda>r r'. \<exists>s. scorer q (Documents r) = Inr s \<and> r' = r\<lparr>Reranked_Scores := Some s\<rparr>)
           df (map2 (\<lambda>r s. r\<lparr>Reranked_Scores := Some s\<rparr>) df ss)"
  using assms
proof (induction df arbitrary: ss)
  case Nil
  then show ?case by simp
next
  case (Cons r df)
  then obtain s ss' where "ss = s # ss'" by (cases ss) auto
  with Cons show ?case by auto
qed

lemma cells_scored:
  "length ss = length df \<Longrightarrow> cells (map2 (\<lambda>r s. r\<lparr>Reranked_Scores := Some s\<rparr>) df ss) = Inr ss"
proof (induction df arbitrary: ss)
  case Nil
  then show ?case by simp
next
  case (Cons r df)
  then obtain s ss' where "ss = s # ss'" by (cases ss) auto
  with Cons show ?case by simp
qed

subsection \<open>Positions\<close>

lemma upt_shift: "[i..<i + length (c # items)] = i # [Suc i..<Suc i + length items]"
  by (simp add: upt_conv_Cons del: upt_Suc)

lemma positions_from:
  "mset (map fst (non_nans_from i items)) + mset (nans_from i items) = mset [i..<i + length items]"
proof (induction i items rule: non_nans_from.induct)
  case (1 i)
  then show ?case by simp
next
  case (2 i items)
  then show ?case by (simp only: upt_shift) simp
next
  case (3 i x items)
  then show ?case by (simp only: upt_shift) simp
qed




lemma getitems_permutation:
  assumes "mset p = mset [0..<length xs]"
  shows "getitems xs p = Inr (map (\<lambda>i. xs ! i) p)" "mset (map (\<lambda>i. xs ! i) p) = mset xs"
proof -
  from assms have "set p = set [0..<length xs]" by (rule mset_eq_setD)
  then show "getitems xs p = Inr (map (\<lambda>i. xs ! i) p)"
    by (auto simp: getitems_def list_all_iff)
  have "mset (map (\<lambda>i. xs ! i) p) = image_mset (\<lambda>i. xs ! i) (mset p)" by simp
  also have "\<dots> = image_mset (\<lambda>i. xs ! i) (mset [0..<length xs])" by (simp only: assms)
  also have "\<dots> = mset (map (\<lambda>i. xs ! i) [0..<length xs])" by simp
  also have "\<dots> = mset xs" by (simp only: map_nth)
  finally show "mset (map (\<lambda>i. xs ! i) p) = mset xs" .
qed

subsection \<open>The indexer\<close>

lemma nargsort_permutation:
  assumes "permutes argsort"
  shows "\<exists>ix. nargsort argsort ascending items = Inr ix \<and> mset ix = mset [0..<length items]"
proof -
  define found where
    "found = (if ascending then non_nans_from 0 items else rev (non_nans_from 0 items))"
  define p where "p = argsort (map snd found)"
  from assms have "mset p = mset [0..<length (map snd found)]"
    by (simp only: p_def permutes_def)
  then have p: "mset p = mset [0..<length (map fst found)]" by simp
  note g = getitems_permutation[OF p]
  have "mset (map fst found) = mset (map fst (non_nans_from 0 items))"
    by (simp add: found_def)
  with g(2) have m: "mset (map (\<lambda>i. map fst found ! i) p) = mset (map fst (non_nans_from 0 items))"
    by simp
  let ?ix = "(if ascending then map (\<lambda>i. map fst found ! i) p
              else rev (map (\<lambda>i. map fst found ! i) p)) @ nans_from 0 items"
  have "nargsort argsort ascending items = Inr ?ix"
    using g(1) by (simp add: nargsort_def Let_def found_def p_def)
  moreover have "mset ?ix = mset (map fst (non_nans_from 0 items)) + mset (nans_from 0 items)"
    using m by simp
  then have "mset ?ix = mset [0..<length items]"
    using positions_from[of 0 items] by simp
  ultimately show ?thesis by blast
qed




lemma backward_argsort_sorts: "sorts_ascending backward_argsort"
  unfolding sorts_ascending_def permutes_def backward_argsort_def
  by (simp add: sorted_sort_key)

subsection \<open>Equal scores\<close>






text \<open>The frames that \<^verbatim>\<open>retrieve_documents\<close> builds are labelled in ascending order.\<close>

lemma rows_from_labels:
  "sorted_wrt (<) (map index (rows_from i docs metas dists)) \<and>
   (\<forall>r \<in> set (rows_from i docs metas dists). i \<le> index r)"
proof (induction i docs metas dists rule: rows_from.induct)
  case (1 i doc docs m ms d ds)
  then have "\<forall>r \<in> set (rows_from (Suc i) docs ms ds). i < index r" by auto
  with 1 show ?case by auto
qed simp_all

subsection \<open>A call whose scorer scores every document\<close>

text \<open>
  When the scorer returns a score for the document of every row, the call returns: the
  caller's frame is the input with the score of each row written into
  \<^verbatim>\<open>Reranked_Scores\<close>, and the frame returned is made of the rows of that frame at the
  positions of the indexer.
\<close>

lemma rerank_results_returns:
  assumes perm: "permutes argsort"
    and total: "\<And>r. r \<in> set results_df \<Longrightarrow> \<exists>s. scorer query (Documents r) = Inr s"
  shows "\<exists>scores indexer.
           list_all2 (\<lambda>doc s. scorer query doc = Inr s) (map Documents results_df) scores \<and>
           nargsort argsort False scores = Inr indexer \<and>
           mset indexer = mset [0..<length results_df] \<and>
           rerank_results argsort scorer query results_df
             = (Inr (map (\<lambda>i. map2 (\<lambda>r s. r\<lparr>Reranked_Scores := Some s\<rparr>) results_df scores ! i) indexer),
                map2 (\<lambda>r s. r\<lparr>Reranked_Scores := Some s\<rparr>) results_df scores)"
proof -
  let ?scored = "\<lambda>ss. map2 (\<lambda>r s. r\<lparr>Reranked_Scores := Some s\<rparr>) results_df ss"
  from total have "\<exists>s. scorer query doc = Inr s" if "doc \<in> set (map Documents results_df)" for doc
    using that by auto
  from predict_total[of "map Documents results_df" scorer query, OF this]
  obtain ss where p: "predict scorer (map (\<lambda>doc. (query, doc)) (map Documents results_df)) = Inr ss"
    by blast
  from predict_Inr[OF p]
  have all: "list_all2 (\<lambda>doc s. scorer query doc = Inr s) (map Documents results_df) ss" .
  then have len: "length ss = length results_df" by (auto dest: list_all2_lengthD)
  then have set: "set_Reranked_Scores results_df ss = Inr (?scored ss)"
    by (simp add: set_Reranked_Scores_def)
  from len have c: "cells (?scored ss) = Inr ss" by (rule cells_scored)
  from nargsort_permutation[OF perm, of False ss] len obtain ix where
    ix: "nargsort argsort False ss = Inr ix" "mset ix = mset [0..<length results_df]" by auto
  from ix(2) len have "mset ix = mset [0..<length (?scored ss)]" by simp
  from getitems_permutation(1)[OF this]
  have "getitems (?scored ss) ix = Inr (map (\<lambda>i. ?scored ss ! i) ix)" .
  with c ix(1) have "sort_values argsort False (?scored ss) = Inr (map (\<lambda>i. ?scored ss ! i) ix)"
    by (simp add: sort_values_def)
  with p set have "rerank_results argsort scorer query results_df
      = (Inr (map (\<lambda>i. ?scored ss ! i) ix), ?scored ss)"
    by (simp add: rerank_results_def)
  with all ix show ?thesis by blast
qed

lemma scored_candidates:
  "length ss = length df \<Longrightarrow>
     map candidate (map2 (\<lambda>r s. r\<lparr>Reranked_Scores := Some s\<rparr>) df ss) = map candidate df"
proof (induction df arbitrary: ss)
  case Nil
  then show ?case by simp
next
  case (Cons r df)
  then obtain s ss' where "ss = s # ss'" by (cases ss) auto
  with Cons show ?case by (simp add: candidate_def)
qed

lemma example_rerank:
  "rerank_results insertion_argsort example_scorer ''premium for seniors'' example_frame
     = (Inr [example_row 1 ''d2'' ''Page 2'' 2 (Some (Score 9)),
             example_row 0 ''d1'' ''Page 1'' 1 (Some (Score 3))],
        [example_row 0 ''d1'' ''Page 1'' 1 (Some (Score 3)),
         example_row 1 ''d2'' ''Page 2'' 2 (Some (Score 9))])"
  by code_simp

lemma insertion_argsort_permutes: "permutes insertion_argsort"
  unfolding permutes_def insertion_argsort_def by simp

lemma example_scorer_total:
  "list_all (\<lambda>r. \<exists>s. example_scorer ''premium for seniors'' (Documents r) = Inr s) example_frame"
  by (simp add: example_frame_def example_scorer_def)


text \<open>
  That the sort is in ascending order does not fix the order of equal numbers: both
  example kernels sort in ascending order, the first keeps ties
  (\<open>insertion_argsort_keeps_ties\<close>) and the second does not, and they return two
  candidates of equal score in different orders.
\<close>

lemma tie_order_depends_on_kernel:
  "fst (rerank_results insertion_argsort constant_scorer ''premium for seniors'' example_frame)
     = Inr [example_row 0 ''d1'' ''Page 1'' 1 (Some (Score 0)),
            example_row 1 ''d2'' ''Page 2'' 2 (Some (Score 0))]"
  "fst (rerank_results backward_argsort constant_scorer ''premium for seniors'' example_frame)
     = Inr [example_row 1 ''d2'' ''Page 2'' 2 (Some (Score 0)),
            example_row 0 ''d1'' ''Page 1'' 1 (Some (Score 0))]"
  by code_simp+




subsection \<open>Order of the ranking\<close>




subsection \<open>The ranking is a rearrangement\<close>

text \<open>
  Claim C4. When the scorer returns a score for the document of every candidate, the call
  returns a frame, and that frame holds the same candidates as the input frame, each as
  often as there: the same row labels, documents, metadata and distances, in some order.
  Of numpy's sort the theorem uses that it returns a rearrangement of the positions.
\<close>

theorem rerank_is_permutation:
  assumes "permutes argsort"
    and "\<forall>r \<in> set results_df. \<exists>s. scorer query (Documents r) = Inr s"
  shows "\<exists>returned results_df'.
           rerank_results argsort scorer query results_df = (Inr returned, results_df') \<and>
           mset (map candidate returned) = mset (map candidate results_df)"
proof -
  let ?scored = "\<lambda>ss. map2 (\<lambda>r s. r\<lparr>Reranked_Scores := Some s\<rparr>) results_df ss"
  from assms(2) have "\<exists>s. scorer query (Documents r) = Inr s" if "r \<in> set results_df" for r
    using that by blast
  from rerank_results_returns[of argsort results_df scorer query, OF assms(1) this]
  obtain ss ix where
    all: "list_all2 (\<lambda>doc s. scorer query doc = Inr s) (map Documents results_df) ss"
    and ix: "mset ix = mset [0..<length results_df]"
    and run: "rerank_results argsort scorer query results_df
                = (Inr (map (\<lambda>i. ?scored ss ! i) ix), ?scored ss)"
    by blast
  from all have len: "length ss = length results_df" by (auto dest: list_all2_lengthD)
  with ix have "mset ix = mset [0..<length (?scored ss)]" by simp
  from getitems_permutation(2)[OF this]
  have "mset (map (\<lambda>i. ?scored ss ! i) ix) = mset (?scored ss)" .
  then have "mset (map candidate (map (\<lambda>i. ?scored ss ! i) ix)) = mset (map candidate (?scored ss))"
    by (metis mset_map)
  also have "\<dots> = mset (map candidate results_df)"
    by (simp only: scored_candidates[OF len])
  finally show ?thesis using run by blast
qed

theorem rerank_is_permutation_witness:
  "permutes (insertion_argsort :: int list \<Rightarrow> nat list) \<and>
   list_all (\<lambda>r. \<exists>s. example_scorer ''premium for seniors'' (Documents r) = Inr s) example_frame \<and>
   rerank_results insertion_argsort example_scorer ''premium for seniors'' example_frame
     = (Inr [example_row 1 ''d2'' ''Page 2'' 2 (Some (Score 9)),
             example_row 0 ''d1'' ''Page 1'' 1 (Some (Score 3))],
        [example_row 0 ''d1'' ''Page 1'' 1 (Some (Score 3)),
         example_row 1 ''d2'' ''Page 2'' 2 (Some (Score 9))]) \<and>
   mset (map candidate [example_row 1 ''d2'' ''Page 2'' 2 (Some (Score 9)),
                        example_row 0 ''d1'' ''Page 1'' 1 (Some (Score 3))])
     = mset (map candidate example_frame)"
proof -
  have total: "\<forall>r \<in> set example_frame.
      \<exists>s. example_scorer ''premium for seniors'' (Documents r) = Inr s"
    using example_scorer_total by (simp add: list_all_iff)
  from rerank_is_permutation [of insertion_argsort example_frame example_scorer "''premium for seniors''",
      OF insertion_argsort_permutes total]
  obtain returned results_df' where
    "rerank_results insertion_argsort example_scorer ''premium for seniors'' example_frame
       = (Inr returned, results_df')"
    and same: "mset (map candidate returned) = mset (map candidate example_frame)"
    by blast
  with example_rerank have "returned = [example_row 1 ''d2'' ''Page 2'' 2 (Some (Score 9)),
      example_row 0 ''d1'' ''Page 1'' 1 (Some (Score 3))]" by simp
  with same have "mset (map candidate [example_row 1 ''d2'' ''Page 2'' 2 (Some (Score 9)),
                        example_row 0 ''d1'' ''Page 1'' 1 (Some (Score 3))])
     = mset (map candidate example_frame)" by simp
  note kept = this
  show ?thesis
    by (intro conjI) (fact insertion_argsort_permutes example_scorer_total example_rerank kept)+
qed

subsection \<open>A scorer that raises\<close>

text \<open>
  Claim C7. If the scorer raises for the document of some row of the frame, the call
  raises: it returns no frame at all, whatever the sort. (The caller's frame is then as
  it was, since the scores are assigned only after the whole batch is scored.)
\<close>

theorem rerank_fails_when_scorer_raises:
  assumes "r \<in> set results_df" and "scorer query (Documents r) = Inl e"
  shows "\<exists>e'. rerank_results srt scorer query results_df = (Inl e', results_df)"
proof -
  from assms have "Documents r \<in> set (map Documents results_df)" by simp
  from predict_Inl[of "Documents r" "map Documents results_df" scorer query e, OF this assms(2)]
  obtain e' where
    "predict scorer (map (\<lambda>doc. (query, doc)) (map Documents results_df)) = Inl e'" by blast
  then show ?thesis by (simp add: rerank_results_def)
qed

theorem rerank_fails_when_scorer_raises_witness:
  "rerank_results insertion_argsort raising_scorer ''premium for seniors'' example_frame
     = (Inl (LibraryError ''scoring failed''), example_frame)"
proof -
  have r: "example_row 1 ''d2'' ''Page 2'' 2 None \<in> set example_frame"
    by (simp add: example_frame_def)
  have s: "raising_scorer ''premium for seniors'' (Documents (example_row 1 ''d2'' ''Page 2'' 2 None))
             = Inl (LibraryError ''scoring failed'')"
    by (simp add: raising_scorer_def example_row_def)
  from r s rerank_fails_when_scorer_raises
    [of "example_row 1 ''d2'' ''Page 2'' 2 None" example_frame raising_scorer
        "''premium for seniors''" "LibraryError ''scoring failed''" insertion_argsort]
  obtain e' where e': "rerank_results insertion_argsort raising_scorer ''premium for seniors'' example_frame
     = (Inl e', example_frame)" by blast
  moreover have "fst (rerank_results insertion_argsort raising_scorer ''premium for seniors'' example_frame)
     = Inl (LibraryError ''scoring failed'')"
    by (simp add: rerank_results_def example_frame_def raising_scorer_def example_row_def)
  ultimately show ?thesis by simp
qed

subsection \<open>The caller's frame after the call\<close>

text \<open>
  Claim C10. When the scorer returns a score for the document of every row, the call
  returns, and the frame that was passed in is no longer what it was: each of its rows
  now carries the scorer's score of its document in \<^verbatim>\<open>Reranked_Scores\<close>, everything else
  in the row being as before. The frame returned is made of exactly the rows of that
  changed frame.
\<close>

theorem rerank_mutates_input:
  assumes "permutes argsort"
    and "\<forall>r \<in> set results_df. \<exists>s. scorer query (Documents r) = Inr s"
  shows "\<exists>returned results_df'.
           rerank_results argsort scorer query results_df = (Inr returned, results_df') \<and>
           list_all2 (\<lambda>r r'. \<exists>s. scorer query (Documents r) = Inr s \<and>
                               r' = r\<lparr>Reranked_Scores := Some s\<rparr>) results_df results_df' \<and>
           mset returned = mset results_df'"
proof -
  let ?scored = "\<lambda>ss. map2 (\<lambda>r s. r\<lparr>Reranked_Scores := Some s\<rparr>) results_df ss"
  from assms(2) have "\<exists>s. scorer query (Documents r) = Inr s" if "r \<in> set results_df" for r
    using that by blast
  from rerank_results_returns[of argsort results_df scorer query, OF assms(1) this]
  obtain ss ix where
    all: "list_all2 (\<lambda>doc s. scorer query doc = Inr s) (map Documents results_df) ss"
    and ix: "mset ix = mset [0..<length results_df]"
    and run: "rerank_results argsort scorer query results_df
                = (Inr (map (\<lambda>i. ?scored ss ! i) ix), ?scored ss)"
    by blast
  from all have len: "length ss = length results_df" by (auto dest: list_all2_lengthD)
  with ix have "mset ix = mset [0..<length (?scored ss)]" by simp
  from getitems_permutation(2)[OF this]
  have "mset (map (\<lambda>i. ?scored ss ! i) ix) = mset (?scored ss)" .
  with run scored_rows[of scorer query results_df ss, OF all] show ?thesis by blast
qed

theorem rerank_mutates_input_witness:
  "permutes (insertion_argsort :: int list \<Rightarrow> nat list) \<and>
   list_all (\<lambda>r. \<exists>s. example_scorer ''premium for seniors'' (Documents r) = Inr s) example_frame \<and>
   rerank_results insertion_argsort example_scorer ''premium for seniors'' example_frame
     = (Inr [example_row 1 ''d2'' ''Page 2'' 2 (Some (Score 9)),
             example_row 0 ''d1'' ''Page 1'' 1 (Some (Score 3))],
        [example_row 0 ''d1'' ''Page 1'' 1 (Some (Score 3)),
         example_row 1 ''d2'' ''Page 2'' 2 (Some (Score 9))]) \<and>
   list_all2 (\<lambda>r r'. \<exists>s. example_scorer ''premium for seniors'' (Documents r) = Inr s \<and>
                           r' = r\<lparr>Reranked_Scores := Some s\<rparr>)
     example_frame
     [example_row 0 ''d1'' ''Page 1'' 1 (Some (Score 3)),
      example_row 1 ''d2'' ''Page 2'' 2 (Some (Score 9))] \<and>
   mset [example_row 1 ''d2'' ''Page 2'' 2 (Some (Score 9)),
         example_row 0 ''d1'' ''Page 1'' 1 (Some (Score 3))]
     = mset [example_row 0 ''d1'' ''Page 1'' 1 (Some (Score 3)),
             example_row 1 ''d2'' ''Page 2'' 2 (Some (Score 9))]"
proof -
  have total: "\<forall>r \<in> set example_frame.
      \<exists>s. example_scorer ''premium for seniors'' (Documents r) = Inr s"
    using example_scorer_total by (simp add: list_all_iff)
  from rerank_mutates_input [of insertion_argsort example_frame example_scorer "''premium for seniors''",
      OF insertion_argsort_permutes total]
  obtain returned results_df' where
    run: "rerank_results insertion_argsort example_scorer ''premium for seniors'' example_frame
       = (Inr returned, results_df')"
    and scored: "list_all2 (\<lambda>r r'. \<exists>s. example_scorer ''premium for seniors'' (Documents r) = Inr s \<and>
                           r' = r\<lparr>Reranked_Scores := Some s\<rparr>) example_frame results_df'"
    and same: "mset returned = mset results_df'"
    by blast
  from run example_rerank have eq:
    "returned = [example_row 1 ''d2'' ''Page 2'' 2 (Some (Score 9)),
                 example_row 0 ''d1'' ''Page 1'' 1 (Some (Score 3))]"
    "results_df' = [example_row 0 ''d1'' ''Page 1'' 1 (Some (Score 3)),
                    example_row 1 ''d2'' ''Page 2'' 2 (Some (Score 9))]" by simp_all
  note scored' = scored[unfolded eq]
  note same' = same[unfolded eq]
  show ?thesis
    by (intro conjI) (fact insertion_argsort_permutes example_scorer_total example_rerank
        scored' same')+
qed

section \<open>Reading back what \<^verbatim>\<open>str\<close> wrote\<close>

subsection \<open>Strings\<close>

lemma hex_value_hex_digit:
  assumes "k < 16" shows "hex_value (hex_digit k) = Some k"
proof -
  have "list_all (\<lambda>k. hex_value (hex_digit k) = Some k) [0..<16]"
    by code_simp
  with assms show ?thesis by (simp add: list_all_iff)
qed

lemma char_of_hex_parts: "char_of (16 * ((of_char c :: nat) div 16) + of_char c mod 16) = c"
  by simp

lemma strip_prefix_append [simp]: "strip_prefix p (p @ s) = Some s"
  by (simp add: strip_prefix_def)

lemma string_body_repr_char:
  assumes "q = squote \<or> q = dquote"
  shows "string_body q (repr_char q c @ t) = cons_result c (string_body q t)"
proof -
  have h: "hex_value (hex_digit (of_char c div 16)) = Some (of_char c div 16)"
    by (rule hex_value_hex_digit) (simp add: less_mult_imp_div_less)
  have l: "hex_value (hex_digit (of_char c mod 16)) = Some (of_char c mod 16)"
    by (rule hex_value_hex_digit) simp
  from assms show ?thesis
    by (auto simp: repr_char_def unescape_def h l)
qed

lemma string_body_repr:
  assumes "q = squote \<or> q = dquote"
  shows "string_body q (concat (map (repr_char q) s) @ q # rest) = Some (s, rest)"
proof (induction s)
  case Nil
  then show ?case by simp
next
  case (Cons c s)
  have "string_body q (concat (map (repr_char q) (c # s)) @ q # rest)
          = string_body q (repr_char q c @ (concat (map (repr_char q) s) @ q # rest))"
    by simp
  also have "\<dots> = cons_result c (string_body q (concat (map (repr_char q) s) @ q # rest))"
    by (rule string_body_repr_char[OF assms])
  finally show ?case using Cons.IH by (simp add: cons_result_def)
qed

lemma string_literal_repr_str: "string_literal (repr_str s @ rest) = Some (s, rest)"
proof -
  have q: "repr_quote s = squote \<or> repr_quote s = dquote" by (simp add: repr_quote_def)
  then show ?thesis
    using string_body_repr[OF q, of s rest]
    by (auto simp: string_literal_def repr_str_def Let_def)
qed

subsection \<open>Metadata and lists\<close>

lemma metadata_literal_repr: "metadata_literal (repr_metadata m @ rest) = Some (m, rest)"
proof -
  have "repr_metadata m @ rest =
      (''{'' @ repr_str ''Policy_Name'' @ '': '') @ (repr_str (Policy_Name m) @
        (('', '' @ repr_str ''Page_No'' @ '': '') @ (repr_str (Page_No m) @ (''}'' @ rest))))"
    by (simp add: repr_metadata_def)
  then show ?thesis
    by (simp only: metadata_literal_def strip_prefix_append string_literal_repr_str
        option.case prod.case) simp
qed

lemma list_items_join:
  assumes "\<And>x rest. x \<in> set (y # ys) \<Longrightarrow> ends_item rest \<Longrightarrow> item (rp x @ rest) = Some (x, rest)"
  shows "list_items item (join_items (map rp (y # ys)) @ '']'' @ rest) = Some (y # ys, rest)"
  using assms
proof (induction ys arbitrary: y)
  case Nil
  have "item (rp y @ '']'' @ rest) = Some (y, '']'' @ rest)"
    by (rule Nil) (simp_all add: ends_item_def)
  then show ?case
    by (subst list_items.simps) (simp add: strip_prefix_def)
next
  case (Cons z zs)
  have "item (rp y @ '', '' @ join_items (map rp (z # zs)) @ '']'' @ rest)
          = Some (y, '', '' @ join_items (map rp (z # zs)) @ '']'' @ rest)"
    by (rule Cons.prems) (simp_all add: ends_item_def)
  moreover have "list_items item (join_items (map rp (z # zs)) @ '']'' @ rest) = Some (z # zs, rest)"
    by (rule Cons.IH) (simp add: Cons.prems)
  ultimately show ?case
    by (subst list_items.simps) (simp add: strip_prefix_def cons_result_def)
qed


lemma list_display_py_str:
  assumes "\<And>x rest. x \<in> set xs \<Longrightarrow> ends_item rest \<Longrightarrow> item (rp x @ rest) = Some (x, rest)"
    and "\<And>x. x \<in> set xs \<Longrightarrow> starts_item (rp x)"
  shows "list_display item (py_str rp xs @ rest) = Some (xs, rest)"
proof (cases xs)
  case Nil
  then show ?thesis by (simp add: list_display_def py_str_def strip_prefix_def)
next
  case (Cons y ys)
  from assms(2)[of y] Cons have "starts_item (rp y)" by simp
  then obtain c u where c: "rp y = c # u" "c \<noteq> CHR '']''"
    by (cases "rp y") (auto simp: starts_item_def)
  have j: "join_items (map rp (y # ys)) = c # drop 1 (join_items (map rp (y # ys)))"
    using c by (cases ys) auto
  have "strip_prefix ''[]'' (py_str rp xs @ rest) = None"
    using Cons c j by (cases ys) (auto simp: py_str_def strip_prefix_def)
  moreover have "strip_prefix ''['' (py_str rp xs @ rest)
                   = Some (join_items (map rp (y # ys)) @ '']'' @ rest)"
    using Cons by (simp add: py_str_def strip_prefix_def)
  moreover have "list_items item (join_items (map rp (y # ys)) @ '']'' @ rest) = Some (y # ys, rest)"
    by (rule list_items_join) (simp add: assms(1) Cons)
  ultimately show ?thesis using Cons by (simp add: list_display_def)
qed

lemma literal_eval_py_str:
  assumes "\<And>x rest. x \<in> set xs \<Longrightarrow> ends_item rest \<Longrightarrow> item (rp x @ rest) = Some (x, rest)"
    and "\<And>x. x \<in> set xs \<Longrightarrow> starts_item (rp x)"
  shows "literal_eval item (py_str rp xs) = Inr xs"
  using list_display_py_str[of xs item rp "[]", OF assms] by (simp add: literal_eval_def)

lemma starts_item_repr_str: "starts_item (repr_str s)"
  by (simp add: starts_item_def repr_str_def repr_quote_def Let_def)

lemma starts_item_repr_metadata: "starts_item (repr_metadata m)"
  by (simp add: starts_item_def repr_metadata_def)

lemma literal_eval_documents: "literal_eval string_literal (py_str repr_str docs) = Inr docs"
  by (rule literal_eval_py_str) (simp_all add: string_literal_repr_str starts_item_repr_str)

lemma literal_eval_metadatas: "literal_eval metadata_literal (py_str repr_metadata ms) = Inr ms"
  by (rule literal_eval_py_str) (simp_all add: metadata_literal_repr starts_item_repr_metadata)

subsection \<open>Floats with an integral value\<close>

lemma is_digit_digit_char: "k < 10 \<Longrightarrow> is_digit (digit_char k)"
  by (simp add: is_digit_def digit_char_def)

lemma digit_value: "k < 10 \<Longrightarrow> (of_char (digit_char k) :: nat) - 48 = k"
  by (simp add: digit_char_def)

lemma show_nat_digits: "c \<in> set (show_nat n) \<Longrightarrow> is_digit c"
proof (induction n rule: show_nat.induct)
  case (1 n)
  then show ?case
    by (subst (asm) show_nat.simps) (auto simp: is_digit_digit_char split: if_splits)
qed

lemma show_nat_not_Nil: "show_nat n \<noteq> []"
  by (subst show_nat.simps) simp

lemma read_nat_snoc: "read_nat (ds @ [c]) = 10 * read_nat ds + (of_char c - 48)"
  by (simp add: read_nat_def)

lemma read_nat_show_nat: "read_nat (show_nat n) = n"
proof (induction n rule: show_nat.induct)
  case (1 n)
  show ?case
  proof (cases "n < 10")
    case True
    then show ?thesis
      by (subst show_nat.simps) (simp add: read_nat_def digit_value)
  next
    case False
    with 1 have "read_nat (show_nat (n div 10)) = n div 10" by simp
    with False show ?thesis
      by (subst show_nat.simps) (simp add: read_nat_snoc digit_value)
  qed
qed

lemma not_is_digit_dot: "\<not> is_digit CHR ''.''"
  by (simp add: is_digit_def)

lemma unsigned_literal_show_nat:
  "unsigned_literal (show_nat n @ ''.0'' @ rest) = Some (n, rest)"
proof -
  have t: "takeWhile is_digit (show_nat n @ ''.0'' @ rest) = show_nat n"
    by (simp add: takeWhile_append2 show_nat_digits not_is_digit_dot)
  have d: "dropWhile is_digit (show_nat n @ ''.0'' @ rest) = ''.0'' @ rest"
    by (simp add: dropWhile_append2 show_nat_digits not_is_digit_dot)
  show ?thesis
    unfolding unsigned_literal_def t d Let_def
    by (simp add: show_nat_not_Nil read_nat_show_nat strip_prefix_def)
qed

lemma unsigned_literal_show_nat':
  "unsigned_literal (show_nat n @ CHR ''.'' # CHR ''0'' # rest) = Some (n, rest)"
  using unsigned_literal_show_nat[of n rest] by simp

lemma show_nat_hd: "\<exists>c u. show_nat n = c # u \<and> is_digit c"
  using show_nat_not_Nil[of n] show_nat_digits[of _ n]
  by (cases "show_nat n") auto

lemma integral_literal_repr:
  "integral_literal (integral_repr i @ rest) = Some (i, rest)"
proof (cases "i < 0")
  case True
  then have "integral_repr i @ rest = ''-'' @ (show_nat (nat (- i)) @ ''.0'' @ rest)"
    by (simp add: integral_repr_def)
  then have "integral_literal (integral_repr i @ rest)
               = map_option (\<lambda>(n, rest). (- int n, rest))
                   (unsigned_literal (show_nat (nat (- i)) @ ''.0'' @ rest))"
    by (simp only: integral_literal_def strip_prefix_append option.case)
  with True show ?thesis
    by (simp only: unsigned_literal_show_nat) simp
next
  case False
  obtain c u where c: "show_nat (nat i) = c # u" "is_digit c"
    using show_nat_hd by blast
  then have "c \<noteq> CHR ''-''" by (auto simp: is_digit_def)
  with c False have "strip_prefix ''-'' (integral_repr i @ rest) = None"
    by (simp add: integral_repr_def strip_prefix_def)
  moreover from False have "integral_repr i @ rest = show_nat (nat i) @ ''.0'' @ rest"
    by (simp add: integral_repr_def)
  ultimately show ?thesis using False
    by (simp add: integral_literal_def unsigned_literal_show_nat')
qed

lemma starts_item_integral_repr: "starts_item (integral_repr i)"
proof -
  obtain c u where c: "show_nat (nat \<bar>i\<bar>) = c # u" "is_digit c"
    using show_nat_hd by blast
  then have "c \<noteq> CHR '']''" by (auto simp: is_digit_def)
  with c show ?thesis
    by (cases "i < 0") (auto simp: starts_item_def integral_repr_def abs_if)
qed

lemma float_roundtrip_integral: "float_roundtrip integral_repr integral_literal"
  by (simp add: float_roundtrip_def integral_literal_repr starts_item_integral_repr)

lemma literal_eval_distances:
  assumes "float_roundtrip frepr fliteral"
  shows "literal_eval fliteral (py_str frepr ds) = Inr ds"
  using assms by (intro literal_eval_py_str) (auto simp: float_roundtrip_def)

section \<open>The nearest record of a collection\<close>

lemma foldr_insort_key_least:
  assumes "\<And>y. y \<in> set xs \<Longrightarrow> f x < f y"
  shows "foldr (insort_key f) xs [x] = x # foldr (insort_key f) xs []"
  using assms
proof (induction xs)
  case Nil
  then show ?case by simp
next
  case (Cons y ys)
  then have less: "\<not> f y \<le> f x" by (simp add: not_le)
  from Cons have "foldr (insort_key f) ys [x] = x # foldr (insort_key f) ys []" by simp
  with less show ?case by simp
qed

lemma sort_key_snoc_least:
  assumes "\<And>y. y \<in> set xs \<Longrightarrow> f x < f y"
  shows "sort_key f (xs @ [x]) = x # sort_key f xs"
  using foldr_insort_key_least[of xs f x] assms by (simp add: sort_key_def)

lemma nearest_new:
  assumes "\<And>e. e \<in> set col \<Longrightarrow> dist v (item_embedding new) < dist v (item_embedding e)"
  shows "nearest dist v 1 (col @ [new]) = [new]"
  using sort_key_snoc_least[of col "\<lambda>i. dist v (item_embedding i)" new] assms
  by (simp add: nearest_def)




section \<open>Properties of \<^verbatim>\<open>retrieve_documents\<close>\<close>

subsection \<open>Failures of the queries\<close>

text \<open>
  Claim C6. Whatever the library does: if the query of the cache raises (the embedding
  function is called there first), or if the cache misses and the query of the main
  collection raises, \<^verbatim>\<open>retrieve_documents\<close> raises the same exception and the cache is as
  it was. And if the cache is not as it was after a call, the query of the main collection
  had returned a result.
\<close>

theorem no_cache_write_on_failed_query:
  "(cache_query L cache query 1 = Inl e \<longrightarrow>
      retrieve_documents L cache query n_results cache_threshold = (Inl e, cache)) \<and>
   (cache_query L cache query 1 = Inr cache_results \<and> \<not> cache_hit cache_results cache_threshold \<and>
    collection_query L query n_results = Inl e \<longrightarrow>
      retrieve_documents L cache query n_results cache_threshold = (Inl e, cache)) \<and>
   (snd (retrieve_documents L cache query n_results cache_threshold) \<noteq> cache \<longrightarrow>
      (\<exists>results. collection_query L query n_results = Inr results))"
  by (auto simp: retrieve_documents_def fresh_retrieval_def split: sum.splits if_splits)

theorem no_cache_write_on_failed_query_witness:
  "retrieve_documents failing_library [] ''premium'' 5 0
     = (Inl (LibraryError ''embedding failed''), [])
   \<and> retrieve_documents example_library [] ''premium'' 0 0
     = (Inl (LibraryError ''Number of requested results cannot be negative, or zero''), [])
   \<and> (snd (retrieve_documents example_library [] ''premium'' 1 0) \<noteq> []
       \<and> (\<exists>results. collection_query example_library ''premium'' 1 = Inr results))"
proof -
  have a: "cache_query failing_library [] ''premium'' 1 = Inl (LibraryError ''embedding failed'')"
    by (simp add: failing_library_def)
  have b: "cache_query example_library [] ''premium'' 1
             = Inr \<lparr>ids = [], documents = [], metadatas = [], distances = []\<rparr>"
    by (simp add: example_library_def chroma_def chroma_query_def nearest_def)
  have c: "\<not> cache_hit \<lparr>ids = [], documents = [], metadatas = [], distances = []\<rparr> (0::int)"
    by (simp add: cache_hit_def)
  have d: "collection_query example_library ''premium'' 0
             = Inl (LibraryError ''Number of requested results cannot be negative, or zero'')"
    by (simp add: example_library_def chroma_def chroma_query_def)
  have e: "snd (retrieve_documents example_library [] ''premium'' 1 0) \<noteq> []"
    by (simp add: retrieve_documents_def fresh_retrieval_def b c example_library_def chroma_def
        chroma_query_def chroma_add_def DataFrame_def Let_def nearest_def example_store_def)
  have w1: "retrieve_documents failing_library [] ''premium'' 5 0
              = (Inl (LibraryError ''embedding failed''), [])"
    using a no_cache_write_on_failed_query
      [of failing_library "[]" "''premium''" "LibraryError ''embedding failed''" 5 0]
    by blast
  have w2: "retrieve_documents example_library [] ''premium'' 0 0
              = (Inl (LibraryError ''Number of requested results cannot be negative, or zero''), [])"
    using b c d no_cache_write_on_failed_query
      [of example_library "[]" "''premium''"
          "LibraryError ''Number of requested results cannot be negative, or zero''" 0 0
          "\<lparr>ids = [], documents = [], metadatas = [], distances = []\<rparr>"]
    by blast
  have w3: "\<exists>results. collection_query example_library ''premium'' 1 = Inr results"
    using e no_cache_write_on_failed_query [of example_library "[]" "''premium''" _ 1 0]
    by blast
  from w1 w2 w3 e show ?thesis by blast
qed

subsection \<open>The empty cache\<close>

text \<open>
  Claim C8. The query of an empty cache collection returns empty lists and does not
  raise; the condition of the \<^verbatim>\<open>if\<close> is then false whatever the threshold, and
  \<^verbatim>\<open>retrieve_documents\<close> on an empty cache is the retrieval from the main collection.
\<close>

theorem empty_cache_misses:
  "chroma_query embedding_function dist ([] :: ('v, cache_data) collection) query 1
     = Inr \<lparr>ids = [], documents = [], metadatas = [], distances = []\<rparr> \<and>
   \<not> cache_hit \<lparr>ids = [], documents = [], metadatas = ([] :: cache_data list),
                distances = []\<rparr> cache_threshold \<and>
   retrieve_documents (chroma embedding_function dist frepr fliteral store) []
       query n_results cache_threshold
     = fresh_retrieval (chroma embedding_function dist frepr fliteral store) [] query n_results"
  by (simp add: retrieve_documents_def chroma_def chroma_query_def nearest_def cache_hit_def)

subsection \<open>The two routes on ChromaDB collections\<close>

lemma chroma_simps [simp]:
  "cache_query (chroma ef dist fr fl store) = chroma_query ef dist"
  "cache_add (chroma ef dist fr fl store) = chroma_add ef"
  "collection_query (chroma ef dist fr fl store) = chroma_query ef dist store"
  "float_repr (chroma ef dist fr fl store) = fr"
  "float_literal (chroma ef dist fr fl store) = fl"
  by (simp_all add: chroma_def)

text \<open>The frame read back from a payload is the frame built from the result that was stored.\<close>

lemma cached_frame_payload:
  assumes "float_roundtrip (float_repr L) (float_literal L)"
    and "metadatas cache_results = payload L results # others"
  shows "cached_frame L cache_results
           = DataFrame (documents results) (metadatas results) (distances results)"
  using assms(2)
  by (simp add: cached_frame_def payload_def getitem_def literal_eval_documents
      literal_eval_metadatas literal_eval_distances[OF assms(1)])

lemma chroma_query_lengths:
  assumes "chroma_query ef dist col q n = Inr r"
  shows "length (documents r) = length (ids r)" "length (metadatas r) = length (ids r)"
    "length (distances r) = length (ids r)" "length (ids r) = min (nat n) (length col)"
  using assms by (auto simp: chroma_query_def nearest_def Let_def split: if_splits)

lemma length_rows_from:
  "length docs = length metas \<Longrightarrow> length metas = length dists \<Longrightarrow>
     length (rows_from i docs metas dists) = length docs"
proof (induction docs arbitrary: i metas dists)
  case Nil
  then show ?case by simp
next
  case (Cons d docs)
  then obtain m metas' x dists' where "metas = m # metas'" "dists = x # dists'"
    by (cases metas; cases dists) auto
  with Cons show ?case by simp
qed

text \<open>What a call that took the miss route has done.\<close>

lemma miss_route:
  assumes "retrieve_documents (chroma ef dist fr fl store) cache q n t = (Inr (Cache_miss, df), cache')"
  shows "\<exists>r results.
           chroma_query ef dist cache q 1 = Inr r \<and> \<not> cache_hit r t \<and>
           chroma_query ef dist store q n = Inr results \<and>
           DataFrame (documents results) (metadatas results) (distances results) = Inr df \<and>
           chroma_add ef cache q q (payload (chroma ef dist fr fl store) results) = Inr cache'"
  using assms
  by (auto simp: retrieve_documents_def fresh_retrieval_def split: sum.splits if_splits)

text \<open>A call whose nearest cache record carries a stored result, within the threshold.\<close>

lemma hit_route:
  assumes rt: "float_roundtrip fr fl"
    and near: "nearest dist (ef q) 1 cache = [entry]"
    and stored: "item_metadata entry = payload (chroma ef dist fr fl store) results"
    and frame: "DataFrame (documents results) (metadatas results) (distances results) = Inr df"
    and within: "dist (ef q) (item_embedding entry) \<le> t"
  shows "retrieve_documents (chroma ef dist fr fl store) cache q n t = (Inr (Cache_hit, df), cache)"
proof -
  let ?L = "chroma ef dist fr fl store"
  let ?r = "\<lparr>ids = [item_id entry], documents = [item_document entry],
             metadatas = [item_metadata entry],
             distances = [dist (ef q) (item_embedding entry)]\<rparr>"
  from near have q: "cache_query ?L cache q 1 = Inr ?r"
    by (simp add: chroma_query_def Let_def)
  from within have h: "cache_hit ?r t" by (simp add: cache_hit_def)
  from rt have "float_roundtrip (float_repr ?L) (float_literal ?L)" by simp
  from cached_frame_payload[OF this, of ?r results "[]"] stored frame
  have "cached_frame ?L ?r = Inr df" by simp
  with q h show ?thesis by (simp add: retrieve_documents_def)
qed

lemma miss_then_lookup:
  assumes rt: "float_roundtrip fr fl"
    and fresh: "q1 \<notin> set (map item_id cache)"
    and first: "retrieve_documents (chroma ef dist fr fl store) cache q1 n1 t1
                  = (Inr (Cache_miss, df1), cache1)"
    and near: "\<And>e. e \<in> set cache \<Longrightarrow> dist (ef q2) (ef q1) < dist (ef q2) (item_embedding e)"
  shows "(dist (ef q2) (ef q1) \<le> t2 \<longrightarrow>
            retrieve_documents (chroma ef dist fr fl store) cache1 q2 n2 t2
              = (Inr (Cache_hit, df1), cache1)) \<and>
         (t2 < dist (ef q2) (ef q1) \<longrightarrow>
            retrieve_documents (chroma ef dist fr fl store) cache1 q2 n2 t2
              = fresh_retrieval (chroma ef dist fr fl store) cache1 q2 n2) \<and>
         length df1 = min (nat n1) (length store)"
proof -
  let ?L = "chroma ef dist fr fl store"
  from miss_route[OF first] obtain results where
    res: "chroma_query ef dist store q1 n1 = Inr results"
    and frame: "DataFrame (documents results) (metadatas results) (distances results) = Inr df1"
    and add: "chroma_add ef cache q1 q1 (payload ?L results) = Inr cache1"
    by blast
  define entry where "entry = \<lparr>item_id = q1, item_document = q1, item_embedding = ef q1,
                                item_metadata = payload ?L results\<rparr>"
  from add fresh have c1: "cache1 = cache @ [entry]"
    by (simp add: chroma_add_def entry_def)
  have nn: "nearest dist (ef q2) 1 cache1 = [entry]"
    unfolding c1 by (rule nearest_new) (simp add: entry_def near)
  have hit: "retrieve_documents ?L cache1 q2 n2 t2 = (Inr (Cache_hit, df1), cache1)"
    if "dist (ef q2) (ef q1) \<le> t2"
    using hit_route[of fr fl dist ef q2 cache1 entry store results df1 t2 n2] rt nn frame that
    by (simp add: entry_def)
  have miss: "retrieve_documents ?L cache1 q2 n2 t2 = fresh_retrieval ?L cache1 q2 n2"
    if "t2 < dist (ef q2) (ef q1)"
  proof -
    from nn have "cache_query ?L cache1 q2 1
        = Inr \<lparr>ids = [item_id entry], documents = [item_document entry],
               metadatas = [item_metadata entry],
               distances = [dist (ef q2) (item_embedding entry)]\<rparr>"
      by (simp add: chroma_query_def Let_def)
    moreover from that have "\<not> dist (ef q2) (ef q1) \<le> t2" by (simp add: not_le)
    ultimately show ?thesis
      by (simp add: retrieve_documents_def cache_hit_def entry_def)
  qed
  from frame have "length df1 = length (documents results)"
    by (auto simp: DataFrame_def length_rows_from split: if_splits)
  with chroma_query_lengths[OF res] have "length df1 = min (nat n1) (length store)" by simp
  with hit miss show ?thesis by blast
qed


text \<open>
  Every record that \<^verbatim>\<open>retrieve_documents\<close> adds to the cache is embedded from its
  own key, since the call passes the query as the document and as the id.
\<close>

lemma retrieve_documents_keeps_keyed:
  assumes "\<forall>e \<in> set cache. item_embedding e = ef (item_id e)"
  shows "\<forall>e \<in> set (snd (retrieve_documents (chroma ef dist fr fl store) cache q n t)).
           item_embedding e = ef (item_id e)"
  using assms
  by (auto simp: retrieve_documents_def fresh_retrieval_def chroma_add_def
      split: sum.splits if_splits)

lemma first_store:
  "retrieve_documents example_library [] ''coverage'' 1 4
     = (Inr (Cache_miss, [example_row 0 ''cover'' ''Page 1'' 3 None]), cache_after_coverage)"
proof -
  have "fst (retrieve_documents example_library [] ''coverage'' 1 4)
          = Inr (Cache_miss, [example_row 0 ''cover'' ''Page 1'' 3 None])"
    by code_simp
  then show ?thesis by (simp add: cache_after_coverage_def prod_eq_iff)
qed

lemma second_store:
  "retrieve_documents example_library cache_after_coverage ''waiting times'' 1 4
     = (Inr (Cache_miss, [example_row 0 ''waiting period'' ''Page 2'' 1 None]), cache_after_waiting)"
proof -
  have "fst (retrieve_documents example_library cache_after_coverage ''waiting times'' 1 4)
          = Inr (Cache_miss, [example_row 0 ''waiting period'' ''Page 2'' 1 None])"
    by code_simp
  then show ?thesis by (simp add: cache_after_waiting_def prod_eq_iff)
qed

lemma five_store:
  "retrieve_documents example_library [] ''coverage'' 5 4
     = (Inr (Cache_miss, [example_row 0 ''cover'' ''Page 1'' 3 None,
                          example_row 1 ''waiting period'' ''Page 2'' 6 None]), cache_after_five)"
proof -
  have "fst (retrieve_documents example_library [] ''coverage'' 5 4)
          = Inr (Cache_miss, [example_row 0 ''cover'' ''Page 1'' 3 None,
                              example_row 1 ''waiting period'' ''Page 2'' 6 None])"
    by code_simp
  then show ?thesis by (simp add: cache_after_five_def prod_eq_iff)
qed

lemma refresh_store:
  "retrieve_documents example_library [] ''coverage'' 1 (- 1)
     = (Inr (Cache_miss, [example_row 0 ''cover'' ''Page 1'' 3 None]), cache_after_refresh)"
proof -
  have "fst (retrieve_documents example_library [] ''coverage'' 1 (- 1))
          = Inr (Cache_miss, [example_row 0 ''cover'' ''Page 1'' 3 None])"
    by code_simp
  then show ?thesis by (simp add: cache_after_refresh_def prod_eq_iff)
qed

subsection \<open>A hit after a miss\<close>

text \<open>
  Claim C1, as amended. Let the call for \<open>q1\<close> take the miss route and succeed, with
  \<open>q1\<close> not a key of the cache before, so that the call stores \<open>q1\<close>; and let every
  record that was in the cache before be strictly farther from \<open>q2\<close> than \<open>q1\<close> is (as
  when the cache was empty). Then a following call for \<open>q2\<close> takes the hit route and
  returns the frame of the call for \<open>q1\<close> if the distance of \<open>q2\<close> to \<open>q1\<close> is within the
  threshold, and is the retrieval from the main collection if that distance is greater.
\<close>

theorem cache_hit_after_miss:
  assumes "float_roundtrip fr fl"
    and "q1 \<notin> set (map item_id cache)"
    and "retrieve_documents (chroma ef dist fr fl store) cache q1 n1 t1
           = (Inr (Cache_miss, df1), cache1)"
    and "\<forall>e \<in> set cache. dist (ef q2) (ef q1) < dist (ef q2) (item_embedding e)"
  shows "(dist (ef q2) (ef q1) \<le> t2 \<longrightarrow>
            retrieve_documents (chroma ef dist fr fl store) cache1 q2 n2 t2
              = (Inr (Cache_hit, df1), cache1)) \<and>
         (t2 < dist (ef q2) (ef q1) \<longrightarrow>
            retrieve_documents (chroma ef dist fr fl store) cache1 q2 n2 t2
              = fresh_retrieval (chroma ef dist fr fl store) cache1 q2 n2)"
  using miss_then_lookup[OF assms(1,2,3), of q2 t2 n2] assms(4) by blast

theorem cache_hit_after_miss_witness:
  "float_roundtrip integral_repr integral_literal \<and>
   ''waiting times'' \<notin> set (map item_id cache_after_coverage) \<and>
   list_all (\<lambda>e.
      example_distance (example_embedding ''waiting time'') (example_embedding ''waiting times'')
        < example_distance (example_embedding ''waiting time'') (item_embedding e))
     cache_after_coverage \<and>
   retrieve_documents example_library cache_after_waiting ''waiting time'' 3 4
     = (Inr (Cache_hit, [example_row 0 ''waiting period'' ''Page 2'' 1 None]), cache_after_waiting)"
proof -
  have fresh: "''waiting times'' \<notin> set (map item_id cache_after_coverage)"
    by code_simp
  have far: "list_all (\<lambda>e. example_distance (example_embedding ''waiting time'') (example_embedding ''waiting times'')
        < example_distance (example_embedding ''waiting time'') (item_embedding e)) cache_after_coverage"
    by code_simp
  then have near: "\<forall>e \<in> set cache_after_coverage.
      example_distance (example_embedding ''waiting time'') (example_embedding ''waiting times'')
        < example_distance (example_embedding ''waiting time'') (item_embedding e)"
    by (simp add: list_all_iff)
  have within: "example_distance (example_embedding ''waiting time'') (example_embedding ''waiting times'') \<le> 4"
    by (simp add: example_distance_def example_embedding_def)
  from cache_hit_after_miss [OF float_roundtrip_integral fresh
      second_store [unfolded example_library_def] near, of 4 3] within
  have "retrieve_documents example_library cache_after_waiting ''waiting time'' 3 4
     = (Inr (Cache_hit, [example_row 0 ''waiting period'' ''Page 2'' 1 None]), cache_after_waiting)"
    by (simp add: example_library_def)
  with float_roundtrip_integral fresh far show ?thesis by blast
qed

text \<open>
  Claim C1 as stated puts no condition on the other records of the cache. On a cache
  that already holds \<^verbatim>\<open>'coverage'\<close>, the call for \<^verbatim>\<open>'waiting times'\<close> misses and is stored.
  \<^verbatim>\<open>'cover plan'\<close> is within the threshold of \<^verbatim>\<open>'waiting times'\<close>, yet the call for it
  returns the frame stored for \<^verbatim>\<open>'coverage'\<close>, which is nearer. And \<^verbatim>\<open>'coverage'\<close> is
  farther from \<^verbatim>\<open>'waiting times'\<close> than the threshold, yet the call for it is a hit.
\<close>

theorem cache_hit_after_miss_counterexample:
  "retrieve_documents example_library cache_after_coverage ''waiting times'' 1 4
     = (Inr (Cache_miss, [example_row 0 ''waiting period'' ''Page 2'' 1 None]), cache_after_waiting) \<and>
   example_distance (example_embedding ''cover plan'') (example_embedding ''waiting times'') \<le> 4 \<and>
   retrieve_documents example_library cache_after_waiting ''cover plan'' 1 4
     = (Inr (Cache_hit, [example_row 0 ''cover'' ''Page 1'' 3 None]), cache_after_waiting) \<and>
   4 < example_distance (example_embedding ''coverage'') (example_embedding ''waiting times'') \<and>
   retrieve_documents example_library cache_after_waiting ''coverage'' 1 4
     = (Inr (Cache_hit, [example_row 0 ''cover'' ''Page 1'' 3 None]), cache_after_waiting)"
proof -
  have a: "retrieve_documents example_library cache_after_waiting ''cover plan'' 1 4
     = (Inr (Cache_hit, [example_row 0 ''cover'' ''Page 1'' 3 None]), cache_after_waiting)"
    by code_simp
  have b: "retrieve_documents example_library cache_after_waiting ''coverage'' 1 4
     = (Inr (Cache_hit, [example_row 0 ''cover'' ''Page 1'' 3 None]), cache_after_waiting)"
    by code_simp
  have c: "example_distance (example_embedding ''cover plan'') (example_embedding ''waiting times'') \<le> 4"
    "4 < example_distance (example_embedding ''coverage'') (example_embedding ''waiting times'')"
    by (simp_all add: example_distance_def example_embedding_def)
  from a b c second_store show ?thesis by simp
qed

subsection \<open>The same query twice\<close>




subsection \<open>The number of results asked for on a hit\<close>

text \<open>
  Claim C9, as amended. Let an earlier call for \<open>q0\<close> with \<open>n0\<close> results have taken the
  miss route and stored its result (\<open>q0\<close> was not a key of the cache then), and take any
  later cache and any query \<open>q\<close> whose lookup finds that entry (the last record of the
  cache as the miss left it) within the threshold. Whatever records the cache holds
  besides, and whatever \<open>n_results\<close> the call for \<open>q\<close> passes, the call takes the hit
  route and returns the frame that the miss returned; and the length of that frame is the
  smaller of \<open>n0\<close> and the number of pages in the main collection.
\<close>

theorem hit_ignores_n_results:
  assumes rt: "float_roundtrip fr fl"
    and miss: "retrieve_documents (chroma ef dist fr fl store) cache0 q0 n0 t0
                 = (Inr (Cache_miss, df0), cache1)"
    and fresh: "q0 \<notin> set (map item_id cache0)"
    and near: "nearest dist (ef q) 1 cache = [last cache1]"
    and within: "dist (ef q) (item_embedding (last cache1)) \<le> t"
  shows "retrieve_documents (chroma ef dist fr fl store) cache q n t = (Inr (Cache_hit, df0), cache) \<and>
         length df0 = min (nat n0) (length store)"
proof -
  let ?L = "chroma ef dist fr fl store"
  from miss_route[OF miss] obtain results where
    res: "chroma_query ef dist store q0 n0 = Inr results"
    and frame: "DataFrame (documents results) (metadatas results) (distances results) = Inr df0"
    and add: "chroma_add ef cache0 q0 q0 (payload ?L results) = Inr cache1"
    by blast
  from add fresh have stored: "item_metadata (last cache1) = payload ?L results"
    by (auto simp: chroma_add_def)
  from hit_route[of fr fl dist ef q cache "last cache1" store results df0 t n,
      OF rt near stored frame within]
  have hit: "retrieve_documents ?L cache q n t = (Inr (Cache_hit, df0), cache)" .
  from frame have "length df0 = length (documents results)"
    by (auto simp: DataFrame_def length_rows_from split: if_splits)
  with chroma_query_lengths[OF res] have "length df0 = min (nat n0) (length store)" by simp
  with hit show ?thesis by simp
qed

text \<open>
  On the example: the miss for \<^verbatim>\<open>'coverage'\<close> asked for one result; after a second miss
  has stored \<^verbatim>\<open>'waiting times'\<close>, a call for \<^verbatim>\<open>'cover plan'\<close> that asks for five results
  hits the older entry and returns its one candidate.
\<close>

theorem hit_ignores_n_results_witness:
  "float_roundtrip integral_repr integral_literal \<and>
   retrieve_documents example_library [] ''coverage'' 1 4
     = (Inr (Cache_miss, [example_row 0 ''cover'' ''Page 1'' 3 None]), cache_after_coverage) \<and>
   ''coverage'' \<notin> set (map item_id ([] :: (int, cache_data) collection)) \<and>
   nearest example_distance (example_embedding ''cover plan'') 1 cache_after_waiting
     = [last cache_after_coverage] \<and>
   example_distance (example_embedding ''cover plan'') (item_embedding (last cache_after_coverage)) \<le> 4 \<and>
   length cache_after_waiting = 2 \<and>
   retrieve_documents example_library cache_after_waiting ''cover plan'' 5 4
     = (Inr (Cache_hit, [example_row 0 ''cover'' ''Page 1'' 3 None]), cache_after_waiting) \<and>
   length [example_row 0 ''cover'' ''Page 1'' 3 None] = min (nat 1) (length example_store)"
proof -
  have fresh: "''coverage'' \<notin> set (map item_id ([] :: (int, cache_data) collection))" by simp
  have near: "nearest example_distance (example_embedding ''cover plan'') 1 cache_after_waiting
     = [last cache_after_coverage]" by code_simp
  have within: "example_distance (example_embedding ''cover plan'')
      (item_embedding (last cache_after_coverage)) \<le> 4" by code_simp
  have two: "length cache_after_waiting = 2" by code_simp
  have both: "retrieve_documents example_library cache_after_waiting ''cover plan'' 5 4
     = (Inr (Cache_hit, [example_row 0 ''cover'' ''Page 1'' 3 None]), cache_after_waiting) \<and>
   length [example_row 0 ''cover'' ''Page 1'' 3 None] = min (nat 1) (length example_store)"
  proof -
    note step = hit_ignores_n_results [OF float_roundtrip_integral]
    note step = step [OF first_store [unfolded example_library_def]]
    note step = step [OF fresh]
    note step = step [OF near]
    note step = step [OF within, of 5]
    then show ?thesis by (simp only: example_library_def)
  qed
  show ?thesis
    by (intro conjI) (fact float_roundtrip_integral first_store fresh near within two
        both [THEN conjunct1] both [THEN conjunct2])+
qed

text \<open>
  Claim C9 as stated gives the length as the \<open>n_results\<close> of the call that missed. On the
  store of two pages, a call that asks for five results stores two candidates, and the
  hit that follows returns these two.
\<close>

theorem hit_ignores_n_results_counterexample:
  "retrieve_documents example_library [] ''coverage'' 5 4
     = (Inr (Cache_miss, [example_row 0 ''cover'' ''Page 1'' 3 None,
                          example_row 1 ''waiting period'' ''Page 2'' 6 None]), cache_after_five) \<and>
   retrieve_documents example_library cache_after_five ''coverage'' 3 4
     = (Inr (Cache_hit, [example_row 0 ''cover'' ''Page 1'' 3 None,
                         example_row 1 ''waiting period'' ''Page 2'' 6 None]), cache_after_five) \<and>
   length [example_row 0 ''cover'' ''Page 1'' 3 None,
           example_row 1 ''waiting period'' ''Page 2'' 6 None] \<noteq> 5"
proof -
  have "retrieve_documents example_library cache_after_five ''coverage'' 3 4
     = (Inr (Cache_hit, [example_row 0 ''cover'' ''Page 1'' 3 None,
                         example_row 1 ''waiting period'' ''Page 2'' 6 None]), cache_after_five)"
    by code_simp
  with five_store show ?thesis by simp
qed

subsection \<open>Storing under a key that exists\<close>

text \<open>
  Claim C3, as amended. When the query is already a key of the cache collection,
  \<^verbatim>\<open>cache_collection.add\<close> neither raises nor adds a second record, and it does not
  replace the record either: the collection is as before, so the result stored first is
  the one a later hit returns. \<^verbatim>\<open>retrieve_documents\<close> for such a query leaves the cache as
  it was.
\<close>

theorem add_keeps_existing_entry:
  assumes "query \<in> set (map item_id cache)"
  shows "chroma_add ef cache query query data = Inr cache \<and>
         snd (retrieve_documents (chroma ef dist fr fl store) cache query n t) = cache"
  using assms
  by (auto simp: retrieve_documents_def fresh_retrieval_def chroma_add_def
      split: sum.splits if_splits)

theorem add_keeps_existing_entry_witness:
  "''coverage'' \<in> set (map item_id cache_after_refresh) \<and>
   chroma_add example_embedding cache_after_refresh ''coverage'' ''coverage''
       [(''documents'', ''[]''), (''distances'', ''[]''), (''metadatas'', ''[]'')]
     = Inr cache_after_refresh \<and>
   snd (retrieve_documents example_library cache_after_refresh ''coverage'' 2 (- 1))
     = cache_after_refresh"
proof -
  have k: "''coverage'' \<in> set (map item_id cache_after_refresh)" by code_simp
  from add_keeps_existing_entry [OF k, of example_embedding
      "[(''documents'', ''[]''), (''distances'', ''[]''), (''metadatas'', ''[]'')]"
      example_distance integral_repr integral_literal example_store 2 "- 1"] k
  show ?thesis by (simp add: example_library_def)
qed

text \<open>
  Claim C3 as stated has the latest result replace the stored one. With a negative
  threshold the query \<^verbatim>\<open>'coverage'\<close> misses although it is a key of the cache; the second
  such call retrieves two candidates and stores nothing, and a later hit returns the one
  candidate stored by the first call.
\<close>

theorem add_keeps_existing_entry_counterexample:
  "retrieve_documents example_library [] ''coverage'' 1 (- 1)
     = (Inr (Cache_miss, [example_row 0 ''cover'' ''Page 1'' 3 None]), cache_after_refresh) \<and>
   retrieve_documents example_library cache_after_refresh ''coverage'' 2 (- 1)
     = (Inr (Cache_miss, [example_row 0 ''cover'' ''Page 1'' 3 None,
                          example_row 1 ''waiting period'' ''Page 2'' 6 None]), cache_after_refresh) \<and>
   retrieve_documents example_library cache_after_refresh ''coverage'' 2 0
     = (Inr (Cache_hit, [example_row 0 ''cover'' ''Page 1'' 3 None]), cache_after_refresh)"
proof -
  have a: "retrieve_documents example_library cache_after_refresh ''coverage'' 2 (- 1)
     = (Inr (Cache_miss, [example_row 0 ''cover'' ''Page 1'' 3 None,
                          example_row 1 ''waiting period'' ''Page 2'' 6 None]), cache_after_refresh)"
    by code_simp
  have b: "retrieve_documents example_library cache_after_refresh ''coverage'' 2 0
     = (Inr (Cache_hit, [example_row 0 ''cover'' ''Page 1'' 3 None]), cache_after_refresh)"
    by code_simp
  from a b refresh_store show ?thesis by simp
qed

end
